theory Spec2Isabelle
  imports Main
begin

section \<open>Numbers\<close>

text \<open>
  A JavaScript number is an IEEE 754 double: \<^verbatim>\<open>NaN\<close>, an infinity with its sign, or a
  finite value with its sign, \<open>Finite s m e\<close> standing for \<open>m * 2^e\<close>, negated when \<open>s\<close>
  holds. The finite doubles are the zeros \<open>Finite s 0 0\<close> and the \<open>Finite s m e\<close> with
  \<open>m\<close> odd, of at most 53 bits, \<open>e\<close> at least \<open>-1074\<close> and \<open>m * 2^e\<close> below \<open>2^1024\<close>;
  the operations return such values.
\<close>

datatype double = Finite bool int int | Infinity bool | NaN

definition d_zero :: double where
  "d_zero = Finite False 0 0"

definition d_one :: double where
  "d_one = Finite False 1 0"

text \<open>The number of bits of a positive integer.\<close>

function bit_length :: "int \<Rightarrow> int" where
  "bit_length n = (if n \<le> 0 then 0 else 1 + bit_length (n div 2))"
  by pat_completeness auto
termination
  by (relation "measure nat") auto

text \<open>\<open>m * 2^e\<close> with the factors 2 of \<open>m\<close> moved into the exponent.\<close>

function strip_zeros :: "int \<Rightarrow> int \<Rightarrow> int \<times> int" where
  "strip_zeros m e =
     (if m \<le> 0 then (0, 0)
      else if even m then strip_zeros (m div 2) (e + 1)
      else (m, e))"
  by pat_completeness auto
termination
  by (relation "measure (\<lambda>(m, e). nat m)") auto

text \<open>\<open>m / 2^sh\<close> rounded to the nearest integer, a tie to the even one (\<open>sh\<close> positive).\<close>

definition round_half_even :: "int \<Rightarrow> nat \<Rightarrow> int" where
  "round_half_even m sh =
     (let q = m div 2 ^ sh; r = m mod 2 ^ sh; half = 2 ^ (sh - 1)
      in if r > half \<or> (r = half \<and> odd q) then q + 1 else q)"

text \<open>
  The double nearest to the positive value \<open>M * 2^E\<close>, with the sign \<open>s\<close>: the value is
  rounded to 53 bits, or to a multiple of \<open>2^(-1074)\<close> where it is that small, a tie
  going to the even mantissa; a result of \<open>2^1024\<close> or more is the infinity.
\<close>

definition round_to_double :: "bool \<Rightarrow> int \<Rightarrow> int \<Rightarrow> double" where
  "round_to_double s M E =
     (case strip_zeros M E of (m, e) \<Rightarrow>
        if m = 0 then Finite s 0 0
        else
          let t = max (e + bit_length m - 53) (- 1074)
          in if t \<le> e then
               (if bit_length m + e > 1024 then Infinity s else Finite s m e)
             else
               (let q = round_half_even m (nat (t - e))
                in if q = 0 then Finite s 0 0
                   else if bit_length q + t > 1024 then Infinity s
                   else (case strip_zeros q t of (m', e') \<Rightarrow> Finite s m' e')))"

text \<open>
  The operators \<^verbatim>\<open>+\<close>, \<^verbatim>\<open>-\<close> and \<^verbatim>\<open>*\<close> on numbers: the exact result, rounded. An
  exact sum of zero is \<open>+0\<close>, unless both operands are \<open>-0\<close>.
\<close>

fun d_add :: "double \<Rightarrow> double \<Rightarrow> double" where
  "d_add NaN y = NaN"
| "d_add x NaN = NaN"
| "d_add (Infinity s1) (Infinity s2) = (if s1 = s2 then Infinity s1 else NaN)"
| "d_add (Infinity s1) (Finite s2 m2 e2) = Infinity s1"
| "d_add (Finite s1 m1 e1) (Infinity s2) = Infinity s2"
| "d_add (Finite s1 m1 e1) (Finite s2 m2 e2) =
     (let E = min e1 e2;
          i1 = (if s1 then - 1 else 1) * m1 * 2 ^ nat (e1 - E);
          i2 = (if s2 then - 1 else 1) * m2 * 2 ^ nat (e2 - E);
          S = i1 + i2
      in if S = 0 then Finite (m1 = 0 \<and> m2 = 0 \<and> s1 \<and> s2) 0 0
         else round_to_double (S < 0) \<bar>S\<bar> E)"

fun d_neg :: "double \<Rightarrow> double" where
  "d_neg NaN = NaN"
| "d_neg (Infinity s) = Infinity (\<not> s)"
| "d_neg (Finite s m e) = Finite (\<not> s) m e"

definition d_sub :: "double \<Rightarrow> double \<Rightarrow> double" where
  "d_sub x y = d_add x (d_neg y)"

fun d_mul :: "double \<Rightarrow> double \<Rightarrow> double" where
  "d_mul NaN y = NaN"
| "d_mul x NaN = NaN"
| "d_mul (Infinity s1) (Infinity s2) = Infinity (s1 \<noteq> s2)"
| "d_mul (Infinity s1) (Finite s2 m2 e2) = (if m2 = 0 then NaN else Infinity (s1 \<noteq> s2))"
| "d_mul (Finite s1 m1 e1) (Infinity s2) = (if m1 = 0 then NaN else Infinity (s1 \<noteq> s2))"
| "d_mul (Finite s1 m1 e1) (Finite s2 m2 e2) =
     (if m1 * m2 = 0 then Finite (s1 \<noteq> s2) 0 0
      else round_to_double (s1 \<noteq> s2) (m1 * m2) (e1 + e2))"

text \<open>The number of a natural number, as a literal such as \<^verbatim>\<open>5\<close> or a length is.\<close>

definition d_of_nat :: "nat \<Rightarrow> double" where
  "d_of_nat n = (if n = 0 then Finite False 0 0 else round_to_double False (int n) 0)"

text \<open>
  The length that \<^verbatim>\<open>new Array(len)\<close> accepts: \<open>len\<close> is an integer from 0 to
  \<open>2^32 - 1\<close> (\<open>-0\<close> counts as 0).
\<close>

fun to_length :: "double \<Rightarrow> nat option" where
  "to_length (Finite s m e) =
     (if m = 0 then Some 0
      else if s then None
      else if 0 \<le> e then
        (if m * 2 ^ nat e < 2 ^ 32 then Some (nat (m * 2 ^ nat e)) else None)
      else
        (if m mod 2 ^ nat (- e) = 0 \<and> m div 2 ^ nat (- e) < 2 ^ 32
         then Some (nat (m div 2 ^ nat (- e))) else None))"
| "to_length (Infinity s) = None"
| "to_length NaN = None"

text \<open>
  The finite doubles (see above), and the number with a zero made \<open>+0\<close>.
\<close>

fun finite_double :: "double \<Rightarrow> bool" where
  "finite_double (Finite s m e) =
     (if m = 0 then e = 0
      else 0 < m \<and> odd m \<and> bit_length m \<le> 53 \<and> - 1074 \<le> e \<and> bit_length m + e \<le> 1024)"
| "finite_double (Infinity s) = False"
| "finite_double NaN = False"

definition plus_zero :: "double \<Rightarrow> double" where
  "plus_zero x = (if x = Finite True 0 0 then Finite False 0 0 else x)"

section \<open>JavaScript values, errors and arrays\<close>

text \<open>
  The two classes \<^verbatim>\<open>Vector\<close> (vector.ts) and \<^verbatim>\<open>Matrix\<close> (matrix.ts) keep their
  elements in JavaScript arrays. A slot of such an array holds a number, or
  \<^verbatim>\<open>undefined\<close>, or nothing at all (an empty slot, as \<^verbatim>\<open>new Array(3)\<close> creates
  three of them). Arrays are lists. An index is an integer, possibly negative.
\<close>

datatype cell = Num double | Undefined | Hole

text \<open>
  The errors the code throws: \<^verbatim>\<open>Error("Index out of bounds!")\<close>,
  \<^verbatim>\<open>Error("Both vectors must have the same dimension!")\<close>,
  \<^verbatim>\<open>Error("Both vectors must have 3 dimensions!")\<close>,
  \<^verbatim>\<open>Error("All Matrix rows must have same size!")\<close>, and the runtime's own
  \<^verbatim>\<open>TypeError\<close> (a property of \<^verbatim>\<open>undefined\<close> is read or written) and
  \<^verbatim>\<open>RangeError\<close> (invalid array length).
\<close>

datatype error =
    IndexOutOfBounds
  | DimensionMismatch
  | NotThreeDimensional
  | InvalidMatrixShape
  | TypeError
  | RangeError

text \<open>
  The operators on values read from an array: \<^verbatim>\<open>undefined\<close> is converted to the
  number \<^verbatim>\<open>NaN\<close> first.
\<close>

fun to_number :: "cell \<Rightarrow> double" where
  "to_number (Num x) = x"
| "to_number Undefined = NaN"
| "to_number Hole = NaN"

definition js_add :: "cell \<Rightarrow> cell \<Rightarrow> cell" where
  "js_add a b = Num (d_add (to_number a) (to_number b))"

definition js_sub :: "cell \<Rightarrow> cell \<Rightarrow> cell" where
  "js_sub a b = Num (d_sub (to_number a) (to_number b))"

definition js_mul :: "cell \<Rightarrow> cell \<Rightarrow> cell" where
  "js_mul a b = Num (d_mul (to_number a) (to_number b))"

text \<open>The slots that hold a finite number.\<close>

fun finite_number :: "cell \<Rightarrow> bool" where
  "finite_number (Num x) = finite_double x"
| "finite_number Undefined = False"
| "finite_number Hole = False"

text \<open>Reading a slot: an empty slot reads as \<^verbatim>\<open>undefined\<close>.\<close>

definition read_slot :: "cell \<Rightarrow> cell" where
  "read_slot c = (if c = Hole then Undefined else c)"

text \<open>\<^verbatim>\<open>xs[i]\<close> for an integer \<^verbatim>\<open>i\<close>: \<^verbatim>\<open>undefined\<close> outside the array.\<close>

definition arr_get :: "cell list \<Rightarrow> int \<Rightarrow> cell" where
  "arr_get xs i = (if 0 \<le> i \<and> i < int (length xs) then read_slot (xs ! nat i) else Undefined)"

text \<open>
  \<^verbatim>\<open>xs[i] = v\<close> for an integer \<^verbatim>\<open>i\<close>: beyond the end the array grows, the slots in
  between staying empty; a negative \<^verbatim>\<open>i\<close> sets a property that is no element.
\<close>

definition arr_set :: "cell list \<Rightarrow> int \<Rightarrow> cell \<Rightarrow> cell list" where
  "arr_set xs i v =
     (if i < 0 then xs
      else if i < int (length xs) then xs[nat i := v]
      else xs @ replicate (nat i - length xs) Hole @ [v])"

text \<open>
  \<^verbatim>\<open>a[i][j]\<close> and \<^verbatim>\<open>a[i][j] = v\<close> on an array of rows: where \<^verbatim>\<open>a[i]\<close> is
  \<^verbatim>\<open>undefined\<close> both throw a \<^verbatim>\<open>TypeError\<close>.
\<close>

definition arr2_get :: "cell list list \<Rightarrow> int \<Rightarrow> int \<Rightarrow> error + cell" where
  "arr2_get a i j =
     (if 0 \<le> i \<and> i < int (length a) then Inr (arr_get (a ! nat i) j) else Inl TypeError)"

definition arr2_set :: "cell list list \<Rightarrow> int \<Rightarrow> int \<Rightarrow> cell \<Rightarrow> error + cell list list" where
  "arr2_set a i j v =
     (if 0 \<le> i \<and> i < int (length a) then Inr (a[nat i := arr_set (a ! nat i) j v])
      else Inl TypeError)"

text \<open>
  \<^verbatim>\<open>new Array(len)\<close> for a number \<^verbatim>\<open>len\<close>: the length of the new array, whose slots
  are empty; a \<^verbatim>\<open>RangeError\<close> unless \<^verbatim>\<open>len\<close> is a valid length.
\<close>

definition new_Array :: "double \<Rightarrow> error + nat" where
  "new_Array len = (case to_length len of None \<Rightarrow> Inl RangeError | Some k \<Rightarrow> Inr k)"

text \<open>
  \<^verbatim>\<open>new Array(...xs)\<close>: spreading reads every slot (an empty one as \<^verbatim>\<open>undefined\<close>).
  With two or more arguments, or none, the new array holds the arguments. With exactly
  one argument the constructor takes a number for the length of the new array and
  anything else for its only element.
\<close>

fun new_Array_spread :: "cell list \<Rightarrow> error + cell list" where
  "new_Array_spread [] = Inr []"
| "new_Array_spread [Num len] =
     (case new_Array len of Inl e \<Rightarrow> Inl e | Inr k \<Rightarrow> Inr (replicate k Hole))"
| "new_Array_spread [Undefined] = Inr [Undefined]"
| "new_Array_spread [Hole] = Inr [Undefined]"
| "new_Array_spread (x # y # zs) = Inr (map read_slot (x # y # zs))"

section \<open>Vector\<close>

text \<open>The class has one field, \<^verbatim>\<open>_vector: number[]\<close>.\<close>

datatype Vector = Vector (vector: "cell list")

definition Vector_dimension :: "Vector \<Rightarrow> nat" where
  "Vector_dimension this = length (vector this)"

definition Vector_toArray :: "Vector \<Rightarrow> error + cell list" where
  "Vector_toArray this = new_Array_spread (vector this)"

text \<open>
  The constructor's first argument is a number, a \<^verbatim>\<open>Vector\<close> or an array; its second
  argument \<^verbatim>\<open>value\<close> has the default 0.
\<close>

datatype Vector_arg0 = VNumber double | VVector Vector | VArray "cell list"

fun Vector_constructor :: "Vector_arg0 \<Rightarrow> double option \<Rightarrow> error + Vector" where
  "Vector_constructor (VNumber arg0) value =
     (case new_Array arg0 of Inl e \<Rightarrow> Inl e
      | Inr k \<Rightarrow> Inr (Vector (replicate k (Num (case value of None \<Rightarrow> d_zero | Some v \<Rightarrow> v)))))"
| "Vector_constructor (VVector arg0) value =
     (case Vector_toArray arg0 of Inl e \<Rightarrow> Inl e | Inr a \<Rightarrow> Inr (Vector a))"
| "Vector_constructor (VArray arg0) value = Inr (Vector arg0)"

definition Vector_checkBounds :: "Vector \<Rightarrow> int \<Rightarrow> error + unit" where
  "Vector_checkBounds this index =
     (if index \<ge> int (Vector_dimension this) \<or> index < 0 then Inl IndexOutOfBounds
      else Inr ())"

definition Vector_getAt :: "Vector \<Rightarrow> int \<Rightarrow> error + cell" where
  "Vector_getAt this index =
     (case Vector_checkBounds this index of Inl e \<Rightarrow> Inl e
      | Inr _ \<Rightarrow> Inr (arr_get (vector this) index))"

text \<open>
  \<^verbatim>\<open>Array.prototype.map\<close>: the callback gets the element, its index and the array;
  it is called on the slots that are not empty, in increasing index, and the first
  exception ends the call. The empty slots stay empty in the result.
\<close>

fun array_map :: "(cell \<Rightarrow> nat \<Rightarrow> cell list \<Rightarrow> error + cell) \<Rightarrow> cell list \<Rightarrow> nat \<Rightarrow> cell list
    \<Rightarrow> error + cell list" where
  "array_map f arr i [] = Inr []"
| "array_map f arr i (x # xs) =
     (if x = Hole then
        (case array_map f arr (Suc i) xs of Inl e \<Rightarrow> Inl e | Inr ys \<Rightarrow> Inr (Hole # ys))
      else
        (case f x i arr of Inl e \<Rightarrow> Inl e
         | Inr y \<Rightarrow>
            (case array_map f arr (Suc i) xs of Inl e \<Rightarrow> Inl e | Inr ys \<Rightarrow> Inr (y # ys))))"

definition Vector_map :: "(cell \<Rightarrow> nat \<Rightarrow> cell list \<Rightarrow> error + cell) \<Rightarrow> Vector \<Rightarrow> error + Vector" where
  "Vector_map f this =
     (case array_map f (vector this) 0 (vector this) of Inl e \<Rightarrow> Inl e
      | Inr a \<Rightarrow> Vector_constructor (VArray a) None)"

definition Vector_add :: "Vector \<Rightarrow> Vector \<Rightarrow> error + Vector" where
  "Vector_add this v =
     Vector_map (\<lambda>x i arr. case Vector_getAt v (int i) of Inl e \<Rightarrow> Inl e
                            | Inr y \<Rightarrow> Inr (js_add x y)) this"

definition Vector_assertVectorProductDefined :: "Vector \<Rightarrow> Vector \<Rightarrow> error + unit" where
  "Vector_assertVectorProductDefined this v =
     (if Vector_dimension v \<noteq> 3 \<or> Vector_dimension this \<noteq> 3 then Inl NotThreeDimensional
      else Inr ())"

text \<open>
  A binary operation on the results of two calls of \<^verbatim>\<open>getAt\<close>, the left one
  evaluated first.
\<close>

definition lift2 :: "(cell \<Rightarrow> cell \<Rightarrow> cell) \<Rightarrow> error + cell \<Rightarrow> error + cell \<Rightarrow> error + cell" where
  "lift2 f a b =
     (case a of Inl e \<Rightarrow> Inl e | Inr x \<Rightarrow> (case b of Inl e \<Rightarrow> Inl e | Inr y \<Rightarrow> Inr (f x y)))"

definition Vector_vectorProduct :: "Vector \<Rightarrow> Vector \<Rightarrow> error + Vector" where
  "Vector_vectorProduct this v =
     (case Vector_assertVectorProductDefined this v of Inl e \<Rightarrow> Inl e
      | Inr _ \<Rightarrow>
       (case lift2 js_sub (lift2 js_mul (Vector_getAt this 1) (Vector_getAt v 2))
                          (lift2 js_mul (Vector_getAt this 2) (Vector_getAt v 1)) of
          Inl e \<Rightarrow> Inl e
        | Inr x \<Rightarrow>
       (case lift2 js_sub (lift2 js_mul (Vector_getAt this 0) (Vector_getAt v 2))
                          (lift2 js_mul (Vector_getAt this 2) (Vector_getAt v 0)) of
          Inl e \<Rightarrow> Inl e
        | Inr y \<Rightarrow>
       (case lift2 js_sub (lift2 js_mul (Vector_getAt this 0) (Vector_getAt v 1))
                          (lift2 js_mul (Vector_getAt this 1) (Vector_getAt v 0)) of
          Inl e \<Rightarrow> Inl e
        | Inr z \<Rightarrow> Vector_constructor (VArray [x, y, z]) None))))"

section \<open>Matrix\<close>

text \<open>The class has one field, \<^verbatim>\<open>_matrix: number[][]\<close>, the array of the rows.\<close>

datatype Matrix = Matrix (matrix: "cell list list")

text \<open>The getters \<^verbatim>\<open>n\<close> and \<^verbatim>\<open>m\<close>; \<^verbatim>\<open>m\<close> reads the length of \<^verbatim>\<open>_matrix[0]\<close>.\<close>

definition Matrix_n :: "Matrix \<Rightarrow> nat" where
  "Matrix_n this = length (matrix this)"

definition Matrix_m :: "Matrix \<Rightarrow> error + nat" where
  "Matrix_m this = (case matrix this of [] \<Rightarrow> Inl TypeError | row # _ \<Rightarrow> Inr (length row))"

fun mapM :: "('a \<Rightarrow> error + 'b) \<Rightarrow> 'a list \<Rightarrow> error + 'b list" where
  "mapM f [] = Inr []"
| "mapM f (x # xs) =
     (case f x of Inl e \<Rightarrow> Inl e
      | Inr y \<Rightarrow> (case mapM f xs of Inl e \<Rightarrow> Inl e | Inr ys \<Rightarrow> Inr (y # ys)))"

definition Matrix_to2dArray :: "Matrix \<Rightarrow> error + cell list list" where
  "Matrix_to2dArray this = mapM new_Array_spread (matrix this)"

definition Matrix_assertValidity :: "cell list list \<Rightarrow> error + unit" where
  "Matrix_assertValidity array2d =
     (case array2d of [] \<Rightarrow> Inl TypeError
      | row0 # _ \<Rightarrow>
          (if list_all (\<lambda>row. length row = length row0) array2d then Inr ()
           else Inl InvalidMatrixShape))"

text \<open>
  The constructor's first argument is a \<^verbatim>\<open>Matrix\<close>, a \<^verbatim>\<open>Vector\<close>, an array of rows
  or a number; \<^verbatim>\<open>arg1\<close> and \<^verbatim>\<open>arg2\<close> are optional numbers (\<open>None\<close> is
  \<^verbatim>\<open>undefined\<close>). In the last branch the callback of \<^verbatim>\<open>map\<close>, and \<^verbatim>\<open>new Array(m)\<close>
  in it, runs once for each of the \<^verbatim>\<open>n\<close> rows; \<^verbatim>\<open>new Array(undefined)\<close> is an array
  of one element.
\<close>

datatype Matrix_arg0 = MMatrix Matrix | MVector Vector | MArray "cell list list" | MNumber double

fun Matrix_constructor :: "Matrix_arg0 \<Rightarrow> double option \<Rightarrow> double option \<Rightarrow> error + Matrix" where
  "Matrix_constructor (MMatrix arg0) arg1 arg2 =
     (case Matrix_to2dArray arg0 of Inl e \<Rightarrow> Inl e | Inr a \<Rightarrow> Inr (Matrix a))"
| "Matrix_constructor (MVector arg0) arg1 arg2 =
     (case Vector_toArray arg0 of Inl e \<Rightarrow> Inl e | Inr a \<Rightarrow> Inr (Matrix [a]))"
| "Matrix_constructor (MArray arg0) arg1 arg2 =
     (case Matrix_assertValidity arg0 of Inl e \<Rightarrow> Inl e | Inr _ \<Rightarrow> Inr (Matrix arg0))"
| "Matrix_constructor (MNumber arg0) arg1 arg2 =
     (let n = arg0;
          m = (if arg2 = None then Some n else arg1);
          fillValue = (case arg2 of None \<Rightarrow> d_zero | Some v \<Rightarrow> v)
      in case new_Array n of Inl e \<Rightarrow> Inl e
         | Inr rows \<Rightarrow>
            (if rows = 0 then Inr (Matrix [])
             else (case (case m of None \<Rightarrow> Inr 1 | Some len \<Rightarrow> new_Array len) of
                     Inl e \<Rightarrow> Inl e
                   | Inr cols \<Rightarrow> Inr (Matrix (replicate rows (replicate cols (Num fillValue)))))))"

definition Matrix_checkBounds :: "Matrix \<Rightarrow> int \<Rightarrow> int \<Rightarrow> error + unit" where
  "Matrix_checkBounds this i j =
     (if i < 0 \<or> j < 0 \<or> i \<ge> int (Matrix_n this) then Inl IndexOutOfBounds
      else (case Matrix_m this of Inl e \<Rightarrow> Inl e
            | Inr m \<Rightarrow> if j \<ge> int m then Inl IndexOutOfBounds else Inr ()))"

definition Matrix_getAt :: "Matrix \<Rightarrow> int \<Rightarrow> int \<Rightarrow> error + cell" where
  "Matrix_getAt this i j =
     (case Matrix_checkBounds this i j of Inl e \<Rightarrow> Inl e
      | Inr _ \<Rightarrow> arr2_get (matrix this) i j)"

subsection \<open>setMultiple and identity\<close>

text \<open>\<^verbatim>\<open>indices.forEach(([i, j]) => this.checkBounds(i, j))\<close>\<close>

fun forEach_checkBounds :: "Matrix \<Rightarrow> (int \<times> int) list \<Rightarrow> error + unit" where
  "forEach_checkBounds this [] = Inr ()"
| "forEach_checkBounds this ((i, j) # indices) =
     (case Matrix_checkBounds this i j of Inl e \<Rightarrow> Inl e
      | Inr _ \<Rightarrow> forEach_checkBounds this indices)"

text \<open>
  \<^verbatim>\<open>values.forEach((value, index) => { const [i, j] = indices[index]; arr[i][j] = value; })\<close>:
  destructuring \<^verbatim>\<open>indices[index]\<close> throws a \<^verbatim>\<open>TypeError\<close> where it is
  \<^verbatim>\<open>undefined\<close>.
\<close>

fun forEach_set :: "double list \<Rightarrow> nat \<Rightarrow> (int \<times> int) list \<Rightarrow> cell list list
    \<Rightarrow> error + cell list list" where
  "forEach_set [] index indices arr = Inr arr"
| "forEach_set (value # values) index indices arr =
     (if index < length indices then
        (case indices ! index of (i, j) \<Rightarrow>
           (case arr2_set arr i j (Num value) of Inl e \<Rightarrow> Inl e
            | Inr arr' \<Rightarrow> forEach_set values (Suc index) indices arr'))
      else Inl TypeError)"

definition Matrix_setMultiple :: "Matrix \<Rightarrow> double list \<Rightarrow> (int \<times> int) list \<Rightarrow> error + Matrix" where
  "Matrix_setMultiple this values indices =
     (case forEach_checkBounds this indices of Inl e \<Rightarrow> Inl e
      | Inr _ \<Rightarrow>
       (case Matrix_to2dArray this of Inl e \<Rightarrow> Inl e
        | Inr arr \<Rightarrow>
         (case forEach_set values 0 indices arr of Inl e \<Rightarrow> Inl e
          | Inr arr' \<Rightarrow> Matrix_constructor (MArray arr') None None)))"

definition Matrix_identity :: "double \<Rightarrow> error + Matrix" where
  "Matrix_identity n =
     (case Matrix_constructor (MNumber n) (Some d_zero) None of Inl e \<Rightarrow> Inl e
      | Inr m \<Rightarrow>
       (case new_Array n of Inl e \<Rightarrow> Inl e
        | Inr k \<Rightarrow>
           Matrix_setMultiple m (replicate k d_one) (map (\<lambda>i. (int i, int i)) [0..<k])))"

subsection \<open>matrixMultiplication\<close>

text \<open>
  The three loops, innermost first. Each test reads its bound again, as the source
  does; \<^verbatim>\<open>m[i][j] += e\<close> reads \<^verbatim>\<open>m[i][j]\<close>, evaluates \<^verbatim>\<open>e\<close>, then assigns.
\<close>

function mm_loop_k :: "Matrix \<Rightarrow> Matrix \<Rightarrow> nat \<Rightarrow> nat \<Rightarrow> nat \<Rightarrow> cell list list
    \<Rightarrow> error + cell list list" where
  "mm_loop_k this mat i j k m =
     (case Matrix_m this of Inl e \<Rightarrow> Inl e
      | Inr bound \<Rightarrow>
         if k < bound then
           (case arr2_get m (int i) (int j) of Inl e \<Rightarrow> Inl e
            | Inr old \<Rightarrow>
             (case lift2 js_mul (Matrix_getAt this (int i) (int k))
                                (Matrix_getAt mat (int k) (int j)) of
                Inl e \<Rightarrow> Inl e
              | Inr p \<Rightarrow>
               (case arr2_set m (int i) (int j) (js_add old p) of Inl e \<Rightarrow> Inl e
                | Inr m' \<Rightarrow> mm_loop_k this mat i j (Suc k) m')))
         else Inr m)"
  by pat_completeness auto
termination
  by (relation "measure (\<lambda>(this, mat, i, j, k, m).
        (case Matrix_m this of Inl e \<Rightarrow> 0 | Inr bound \<Rightarrow> bound - k))") auto

function mm_loop_j :: "Matrix \<Rightarrow> Matrix \<Rightarrow> nat \<Rightarrow> nat \<Rightarrow> cell list list
    \<Rightarrow> error + cell list list" where
  "mm_loop_j this mat i j m =
     (case Matrix_m mat of Inl e \<Rightarrow> Inl e
      | Inr bound \<Rightarrow>
         if j < bound then
           (case mm_loop_k this mat i j 0 m of Inl e \<Rightarrow> Inl e
            | Inr m' \<Rightarrow> mm_loop_j this mat i (Suc j) m')
         else Inr m)"
  by pat_completeness auto
termination
  by (relation "measure (\<lambda>(this, mat, i, j, m).
        (case Matrix_m mat of Inl e \<Rightarrow> 0 | Inr bound \<Rightarrow> bound - j))") auto

function mm_loop_i :: "Matrix \<Rightarrow> Matrix \<Rightarrow> nat \<Rightarrow> cell list list \<Rightarrow> error + cell list list" where
  "mm_loop_i this mat i m =
     (if i < Matrix_n this then
        (case mm_loop_j this mat i 0 m of Inl e \<Rightarrow> Inl e
         | Inr m' \<Rightarrow> mm_loop_i this mat (Suc i) m')
      else Inr m)"
  by pat_completeness auto
termination
  by (relation "measure (\<lambda>(this, mat, i, m). Matrix_n this - i)") auto

text \<open>
  \<^verbatim>\<open>new Array(this.n).fill(0).map(() => new Array(matrix.m).fill(0))\<close>: the callback
  reads \<^verbatim>\<open>matrix.m\<close> once for each of the \<^verbatim>\<open>this.n\<close> rows.
\<close>

definition Matrix_matrixMultiplication :: "Matrix \<Rightarrow> Matrix \<Rightarrow> error + Matrix" where
  "Matrix_matrixMultiplication this mat =
     (case (if Matrix_n this = 0 then Inr []
            else (case Matrix_m mat of Inl e \<Rightarrow> Inl e
                  | Inr cols \<Rightarrow> Inr (replicate (Matrix_n this) (replicate cols (Num d_zero))))) of
        Inl e \<Rightarrow> Inl e
      | Inr m \<Rightarrow>
         (case mm_loop_i this mat 0 m of Inl e \<Rightarrow> Inl e
          | Inr m' \<Rightarrow> Matrix_constructor (MArray m') None None))"

text \<open>
  The value that the innermost loop leaves in the cell \<open>(i, j)\<close> when it starts from the
  value \<open>s\<close> and runs through the indices \<open>ks\<close>: the products are added to \<open>s\<close> one after
  the other, in the order of \<open>ks\<close>.
\<close>

definition cell_sum :: "Matrix \<Rightarrow> Matrix \<Rightarrow> nat \<Rightarrow> nat \<Rightarrow> cell \<Rightarrow> nat list \<Rightarrow> cell" where
  "cell_sum A B i j s ks =
     foldl (\<lambda>s k'. js_add s (js_mul (arr_get (matrix A ! i) (int k'))
                                      (arr_get (matrix B ! k') (int j)))) s ks"

subsection \<open>transpose\<close>

text \<open>
  \<^verbatim>\<open>row.forEach((x, j) => matrix[j][i] = x)\<close> and the \<^verbatim>\<open>forEach\<close> over the rows
  around it; \<^verbatim>\<open>forEach\<close> skips the empty slots of a row.
\<close>

fun forEach_row :: "cell list \<Rightarrow> nat \<Rightarrow> nat \<Rightarrow> cell list list \<Rightarrow> error + cell list list" where
  "forEach_row [] j i mat = Inr mat"
| "forEach_row (x # xs) j i mat =
     (if x = Hole then forEach_row xs (Suc j) i mat
      else (case arr2_set mat (int j) (int i) x of Inl e \<Rightarrow> Inl e
            | Inr mat' \<Rightarrow> forEach_row xs (Suc j) i mat'))"

fun forEach_rows :: "cell list list \<Rightarrow> nat \<Rightarrow> cell list list \<Rightarrow> error + cell list list" where
  "forEach_rows [] i mat = Inr mat"
| "forEach_rows (row # rows) i mat =
     (case forEach_row row 0 i mat of Inl e \<Rightarrow> Inl e
      | Inr mat' \<Rightarrow> forEach_rows rows (Suc i) mat')"

definition Matrix_transpose :: "Matrix \<Rightarrow> error + Matrix" where
  "Matrix_transpose this =
     (case Matrix_m this of Inl e \<Rightarrow> Inl e
      | Inr m \<Rightarrow>
         (case forEach_rows (matrix this) 0 (replicate m (replicate (Matrix_n this) Hole)) of
            Inl e \<Rightarrow> Inl e
          | Inr mat \<Rightarrow> Matrix_constructor (MArray mat) None None))"

subsection \<open>setMultiple on an explicit store\<close>

text \<open>
  \<^verbatim>\<open>setMultiple\<close> writes into arrays (\<^verbatim>\<open>arr[i][j] = value\<close>). To see which arrays it
  writes, the rows live in a store: the list of the arrays of numbers allocated so far,
  an array's address being its position. A matrix object holds the addresses of its
  rows, and a new array is allocated at the end of the store. The arrays of rows
  themselves are never written after their creation, so they stay lists.
\<close>

type_synonym store = "cell list list"

definition rows_of :: "store \<Rightarrow> nat list \<Rightarrow> cell list list" where
  "rows_of h refs = map (\<lambda>a. h ! a) refs"

text \<open>
  \<^verbatim>\<open>this._matrix.map((row) => new Array(...row))\<close>: each call of the callback
  allocates a new array.
\<close>

fun to2dArray_store :: "store \<Rightarrow> nat list \<Rightarrow> store \<times> (error + nat list)" where
  "to2dArray_store h [] = (h, Inr [])"
| "to2dArray_store h (a # refs) =
     (case new_Array_spread (h ! a) of Inl e \<Rightarrow> (h, Inl e)
      | Inr row \<Rightarrow>
         (case to2dArray_store (h @ [row]) refs of (h', Inl e) \<Rightarrow> (h', Inl e)
          | (h', Inr refs') \<Rightarrow> (h', Inr (length h # refs'))))"

text \<open>The loop over \<^verbatim>\<open>values\<close>: \<^verbatim>\<open>arr[i][j] = value\<close> writes the array at \<^verbatim>\<open>arr[i]\<close>.\<close>

fun forEach_set_store :: "double list \<Rightarrow> nat \<Rightarrow> (int \<times> int) list \<Rightarrow> store \<Rightarrow> nat list
    \<Rightarrow> store \<times> (error + unit)" where
  "forEach_set_store [] index indices h arr = (h, Inr ())"
| "forEach_set_store (value # values) index indices h arr =
     (if index < length indices then
        (case indices ! index of (i, j) \<Rightarrow>
           (if 0 \<le> i \<and> i < int (length arr) then
              forEach_set_store values (Suc index) indices
                (h[arr ! nat i := arr_set (h ! (arr ! nat i)) j (Num value)]) arr
            else (h, Inl TypeError)))
      else (h, Inl TypeError))"

text \<open>
  \<^verbatim>\<open>setMultiple\<close> itself: the receiver is the list \<open>this\<close> of the addresses of its
  rows; the result is the store after the call with the error or the rows of the new
  matrix, which are the arrays of \<^verbatim>\<open>arr\<close> (the constructor keeps the array it is
  given).
\<close>

definition Matrix_setMultiple_store :: "store \<Rightarrow> nat list \<Rightarrow> double list \<Rightarrow> (int \<times> int) list
    \<Rightarrow> store \<times> (error + nat list)" where
  "Matrix_setMultiple_store h this values indices =
     (case forEach_checkBounds (Matrix (rows_of h this)) indices of Inl e \<Rightarrow> (h, Inl e)
      | Inr _ \<Rightarrow>
       (case to2dArray_store h this of (h1, Inl e) \<Rightarrow> (h1, Inl e)
        | (h1, Inr arr) \<Rightarrow>
         (case forEach_set_store values 0 indices h1 arr of (h2, Inl e) \<Rightarrow> (h2, Inl e)
          | (h2, Inr _) \<Rightarrow>
           (case Matrix_assertValidity (rows_of h2 arr) of Inl e \<Rightarrow> (h2, Inl e)
            | Inr _ \<Rightarrow> (h2, Inr arr)))))"

section \<open>Arithmetic on doubles\<close>

text \<open>
  A positive value \<open>m * 2^e\<close> that is a finite double is its own rounding. So the
  natural numbers below \<open>2^32\<close> are valid lengths, a finite number times 1 is that
  number, a finite number times 0 is a zero, and adding a zero to a finite number
  that is no zero leaves it as it is.
\<close>

declare bit_length.simps [simp del] strip_zeros.simps [simp del]

lemma strip_zeros_odd: "0 < m \<Longrightarrow> odd m \<Longrightarrow> strip_zeros m e = (m, e)"
  by (subst strip_zeros.simps) simp

lemma strip_zeros_shift:
  "0 < m \<Longrightarrow> odd m \<Longrightarrow> strip_zeros (m * 2 ^ k) e = (m, e + int k)"
proof (induction k arbitrary: e)
  case 0
  then show ?case by (simp add: strip_zeros_odd)
next
  case (Suc k)
  from Suc.prems have pos: "0 < m * 2 ^ Suc k" by simp
  have "strip_zeros (m * 2 ^ Suc k) e = strip_zeros (m * 2 ^ k) (e + 1)"
    using pos by (subst strip_zeros.simps) simp
  with Suc.IH [OF Suc.prems, of "e + 1"] show ?case by simp
qed

lemma odd_decomposition:
  "0 < (n :: int) \<Longrightarrow> \<exists>m k. n = m * 2 ^ k \<and> odd m \<and> 0 < m"
proof (induction "nat n" arbitrary: n rule: less_induct)
  case less
  show ?case
  proof (cases "even n")
    case False
    with less.prems have "n = n * 2 ^ 0 \<and> odd n \<and> 0 < n" by simp
    then show ?thesis by blast
  next
    case True
    with less.prems have h: "0 < n div 2" "nat (n div 2) < nat n" by auto
    from less.hyps [OF h(2) h(1)] obtain m k where "n div 2 = m * 2 ^ k" "odd m" "0 < m"
      by blast
    with True have "n = m * 2 ^ Suc k \<and> odd m \<and> 0 < m" by auto
    then show ?thesis by blast
  qed
qed

lemma bit_length_bound: "n < 2 ^ k \<Longrightarrow> bit_length n \<le> int k"
proof (induction k arbitrary: n)
  case 0
  then show ?case by (subst bit_length.simps) simp
next
  case (Suc k)
  show ?case
  proof (cases "n \<le> 0")
    case True
    then show ?thesis by (subst bit_length.simps) simp
  next
    case False
    from Suc.prems have "n div 2 < 2 ^ k" by simp
    from Suc.IH [OF this] False show ?thesis by (subst bit_length.simps) simp
  qed
qed

lemma bit_length_nonneg: "0 \<le> bit_length n"
  by (induction n rule: bit_length.induct) (subst bit_length.simps, simp)

lemma round_to_double_exact:
  assumes "0 < m" "odd m" "bit_length m \<le> 53" "- 1074 \<le> e" "bit_length m + e \<le> 1024"
  shows "round_to_double s (m * 2 ^ k) (e - int k) = Finite s m e"
proof -
  from strip_zeros_shift [OF assms(1,2), of k "e - int k"]
  have "strip_zeros (m * 2 ^ k) (e - int k) = (m, e)" by simp
  with assms show ?thesis by (simp add: round_to_double_def Let_def)
qed

lemma new_Array_of_nat:
  assumes "n < 2 ^ 32"
  shows "new_Array (d_of_nat n) = Inr n"
proof (cases "n = 0")
  case True
  then show ?thesis by (simp add: new_Array_def d_of_nat_def)
next
  case False
  then have "0 < int n" by simp
  from odd_decomposition [OF this] obtain m k where mk: "int n = m * 2 ^ k" "odd m" "0 < m"
    by blast
  from assms have n32: "int n < 2 ^ 32" by (metis of_nat_less_numeral_power_cancel_iff)
  have "m \<le> m * 2 ^ k" using mk(3) by simp
  with mk(1) n32 have m32: "m < 2 ^ 32" by simp
  then have bl: "bit_length m \<le> 32" using bit_length_bound [of m 32] by simp
  have "(2 :: int) ^ k \<le> int n" using mk(1,3) by simp
  from this n32 have "(2 :: int) ^ k < 2 ^ 32" by (rule le_less_trans)
  then have k32: "k < 32" using power_less_imp_less_exp [of "2 :: int" k 32] by simp
  from bl k32 have "round_to_double False (m * 2 ^ k) (int k - int k) = Finite False m (int k)"
    by (intro round_to_double_exact mk) simp_all
  with mk(1) False have d: "d_of_nat n = Finite False m (int k)"
    by (simp add: d_of_nat_def)
  from mk n32 have "to_length (Finite False m (int k)) = Some n"
    by simp
  with d show ?thesis by (simp add: new_Array_def)
qed

lemma d_mul_one:
  "finite_double x \<Longrightarrow> d_mul x d_one = x"
proof (cases x)
  case (Finite s m e)
  assume "finite_double x"
  with Finite round_to_double_exact [of m e s 0] show ?thesis
    by (auto simp add: d_one_def split: if_splits)
qed simp_all

lemma d_mul_zero:
  "finite_double x \<Longrightarrow> \<exists>s. d_mul x d_zero = Finite s 0 0"
  by (cases x) (simp_all add: d_zero_def)

lemma d_add_zero_left:
  "finite_double x \<Longrightarrow> d_add d_zero x = plus_zero x"
proof (cases x)
  case (Finite s m e)
  assume fin: "finite_double x"
  show ?thesis
  proof (cases "m = 0")
    case True
    with fin Finite show ?thesis by (simp add: d_zero_def plus_zero_def)
  next
    case False
    with fin Finite have h: "0 < m" "odd m" "bit_length m \<le> 53" "- 1074 \<le> e"
      "bit_length m + e \<le> 1024" by simp_all
    have "round_to_double s (m * 2 ^ nat (e - min 0 e)) (e - int (nat (e - min 0 e))) = Finite s m e"
      by (rule round_to_double_exact [OF h])
    moreover have "e - int (nat (e - min 0 e)) = min 0 e" by simp
    ultimately have "round_to_double s (m * 2 ^ nat (e - min 0 e)) (min 0 e) = Finite s m e"
      by simp
    moreover have "\<not> m * 2 ^ nat (e - min 0 e) < 0"
      using h(1) by (simp add: not_less)
    ultimately show ?thesis
      using h(1) Finite False by (cases s) (simp_all add: d_zero_def plus_zero_def Let_def)
  qed
qed simp_all

lemma d_add_zero_right:
  "finite_double x \<Longrightarrow> d_add (plus_zero x) (Finite s' 0 0) = plus_zero x"
proof (cases x)
  case (Finite s m e)
  assume fin: "finite_double x"
  show ?thesis
  proof (cases "m = 0")
    case True
    with fin Finite show ?thesis by (simp add: plus_zero_def)
  next
    case False
    with fin Finite have h: "0 < m" "odd m" "bit_length m \<le> 53" "- 1074 \<le> e"
      "bit_length m + e \<le> 1024" by simp_all
    have "round_to_double s (m * 2 ^ nat (e - min e 0)) (e - int (nat (e - min e 0))) = Finite s m e"
      by (rule round_to_double_exact [OF h])
    moreover have "e - int (nat (e - min e 0)) = min e 0" by simp
    ultimately have "round_to_double s (m * 2 ^ nat (e - min e 0)) (min e 0) = Finite s m e"
      by simp
    moreover have "\<not> m * 2 ^ nat (e - min e 0) < 0"
      using h(1) by (simp add: not_less)
    ultimately show ?thesis
      using h(1) Finite False by (cases s) (simp_all add: plus_zero_def Let_def)
  qed
qed simp_all

text \<open>
  Three values of the operations: \<^verbatim>\<open>0.1 + 0.2\<close> is \<^verbatim>\<open>0.30000000000000004\<close> (the sum is
  rounded), \<^verbatim>\<open>2**600 * 2**600\<close> is \<^verbatim>\<open>Infinity\<close>, and \<^verbatim>\<open>Infinity - Infinity\<close> is
  \<^verbatim>\<open>NaN\<close>. The doubles \<^verbatim>\<open>0.1\<close>, \<^verbatim>\<open>0.2\<close> and \<^verbatim>\<open>0.30000000000000004\<close> are
  \<open>3602879701896397 * 2^(-55)\<close>, \<open>3602879701896397 * 2^(-54)\<close> and
  \<open>1351079888211149 * 2^(-52)\<close>.
\<close>

lemma d_add_rounds:
  "d_add (Finite False 3602879701896397 (- 55)) (Finite False 3602879701896397 (- 54))
     = Finite False 1351079888211149 (- 52)"
  by code_simp

lemma d_mul_overflows:
  "d_mul (Finite False 1 600) (Finite False 1 600) = Infinity False"
  by code_simp

lemma d_sub_infinities:
  "d_sub (Infinity False) (Infinity False) = NaN"
  by code_simp

section \<open>Construction\<close>

text \<open>
  Claim C1 says that the two-argument constructor \<^verbatim>\<open>new Matrix(n, v)\<close> returns the
  \<open>n\<close>-by-\<open>n\<close> matrix filled with \<open>v\<close>. The code does not: with two arguments
  \<^verbatim>\<open>arg2\<close> is \<^verbatim>\<open>undefined\<close>, so \<^verbatim>\<open>fillValue = arg2 ?? 0\<close> is 0 and \<^verbatim>\<open>arg1\<close>, the
  value, is never read. For every number \<open>n\<close> and every \<open>v\<close> the call throws the
  \<^verbatim>\<open>RangeError\<close> of \<^verbatim>\<open>new Array(n)\<close>, or returns the square matrix of zeros of the
  length that \<^verbatim>\<open>new Array(n)\<close> has; for every natural number \<open>k\<close> below \<open>2^32\<close> the
  result is the \<open>k\<close>-by-\<open>k\<close> matrix of zeros; and \<^verbatim>\<open>new Matrix(2, 5)\<close> is
  \<^verbatim>\<open>[[0, 0], [0, 0]]\<close>.
\<close>

theorem Matrix_constructor_two_arguments_fills_zero:
  "Matrix_constructor (MNumber n) (Some v) None
     = (case new_Array n of Inl e \<Rightarrow> Inl e
        | Inr k \<Rightarrow> Inr (Matrix (replicate k (replicate k (Num d_zero)))))
   \<and> (k < 2 ^ 32 \<longrightarrow>
        Matrix_constructor (MNumber (d_of_nat k)) (Some v) None
          = Inr (Matrix (replicate k (replicate k (Num d_zero)))))
   \<and> Matrix_constructor (MNumber (d_of_nat 2)) (Some (d_of_nat 5)) None
       = Inr (Matrix [[Num d_zero, Num d_zero], [Num d_zero, Num d_zero]])"
proof (intro conjI impI)
  show "Matrix_constructor (MNumber n) (Some v) None
     = (case new_Array n of Inl e \<Rightarrow> Inl e
        | Inr k \<Rightarrow> Inr (Matrix (replicate k (replicate k (Num d_zero)))))"
    by (simp split: sum.splits)
  show "Matrix_constructor (MNumber (d_of_nat k)) (Some v) None
          = Inr (Matrix (replicate k (replicate k (Num d_zero))))" if "k < 2 ^ 32"
    using new_Array_of_nat [OF that] by simp
  have "new_Array (d_of_nat 2) = Inr 2"
    by (rule new_Array_of_nat) simp
  then show "Matrix_constructor (MNumber (d_of_nat 2)) (Some (d_of_nat 5)) None
       = Inr (Matrix [[Num d_zero, Num d_zero], [Num d_zero, Num d_zero]])"
    by (simp add: numeral_2_eq_2)
qed

text \<open>
  For \<open>k = 3\<close>: \<^verbatim>\<open>new Matrix(3, 7)\<close> is the 3-by-3 matrix of zeros.
\<close>

theorem Matrix_constructor_two_arguments_fills_zero_witness:
  "(3 :: nat) < 2 ^ 32
   \<and> Matrix_constructor (MNumber (d_of_nat 3)) (Some (d_of_nat 7)) None
       = Inr (Matrix [[Num d_zero, Num d_zero, Num d_zero],
                      [Num d_zero, Num d_zero, Num d_zero],
                      [Num d_zero, Num d_zero, Num d_zero]])"
proof -
  have k: "(3 :: nat) < 2 ^ 32" by simp
  from Matrix_constructor_two_arguments_fills_zero
         [where k = 3 and v = "d_of_nat 7", THEN conjunct2, THEN conjunct1, rule_format, OF k]
  show ?thesis using k by (simp add: numeral_3_eq_3)
qed

text \<open>
  Claim C10: the constructor called with the number 0 (with one or two further
  arguments) succeeds and returns a matrix with no rows; the getter \<^verbatim>\<open>m\<close> of that
  matrix throws (\<^verbatim>\<open>_matrix[0]\<close> is \<^verbatim>\<open>undefined\<close>); and \<^verbatim>\<open>Matrix.identity(0)\<close> throws
  instead of returning an empty matrix. In \<^verbatim>\<open>identity(0)\<close> the exception comes from
  \<^verbatim>\<open>assertValidity\<close>, which reads the length of the first row of the empty array, as
  the getter does.
\<close>

theorem Matrix_zero_rows:
  "Matrix_constructor (MNumber d_zero) arg1 arg2 = Inr (Matrix [])
   \<and> Matrix_n (Matrix []) = 0
   \<and> Matrix_m (Matrix []) = Inl TypeError
   \<and> Matrix_identity d_zero = Inl TypeError"
  by (simp add: new_Array_def d_zero_def Matrix_n_def Matrix_m_def Matrix_identity_def
      Matrix_setMultiple_def Matrix_to2dArray_def Matrix_assertValidity_def)

section \<open>Vector operations\<close>

text \<open>
  Claim C2 says that \<^verbatim>\<open>v.add(w)\<close> fails with a dimension mismatch whenever the
  dimensions differ. The code of \<^verbatim>\<open>add\<close> never calls \<^verbatim>\<open>checkDimensions\<close>: adding the
  vector \<^verbatim>\<open>[1, 2, 3]\<close> of dimension 3 to the vector \<^verbatim>\<open>[1, 2]\<close> of dimension 2
  succeeds and returns \<^verbatim>\<open>[2, 4]\<close>.
\<close>

theorem Vector_add_dimension_2_and_3:
  "Vector_add (Vector [Num (d_of_nat 1), Num (d_of_nat 2)])
              (Vector [Num (d_of_nat 1), Num (d_of_nat 2), Num (d_of_nat 3)])
     = Inr (Vector [Num (d_of_nat 2), Num (d_of_nat 4)])"
  by code_simp

text \<open>
  Claim C4: \<^verbatim>\<open>a.vectorProduct(b)\<close> fails unless both vectors have dimension 3, and
  for every two vectors of dimension 3 it returns
  \<^verbatim>\<open>[a1*b2 - a2*b1, a0*b2 - a2*b0, a0*b1 - a1*b0]\<close>, the middle component not negated.
  Here \<^verbatim>\<open>ai\<close> and \<^verbatim>\<open>bi\<close> are the elements as \<^verbatim>\<open>getAt\<close> reads them (\<^verbatim>\<open>undefined\<close> for
  an empty slot), and \<^verbatim>\<open>*\<close> and \<^verbatim>\<open>-\<close> are the operators of the language on doubles.
  The last part says the same of two vectors of three numbers.
\<close>

theorem Vector_vectorProduct_correct:
  "(Vector_dimension a \<noteq> 3 \<or> Vector_dimension b \<noteq> 3 \<longrightarrow>
      Vector_vectorProduct a b = Inl NotThreeDimensional)
   \<and> (Vector_dimension a = 3 \<and> Vector_dimension b = 3 \<longrightarrow>
        Vector_vectorProduct a b = Inr (Vector
          [js_sub (js_mul (arr_get (vector a) 1) (arr_get (vector b) 2))
                  (js_mul (arr_get (vector a) 2) (arr_get (vector b) 1)),
           js_sub (js_mul (arr_get (vector a) 0) (arr_get (vector b) 2))
                  (js_mul (arr_get (vector a) 2) (arr_get (vector b) 0)),
           js_sub (js_mul (arr_get (vector a) 0) (arr_get (vector b) 1))
                  (js_mul (arr_get (vector a) 1) (arr_get (vector b) 0))]))
   \<and> Vector_vectorProduct (Vector [Num a0, Num a1, Num a2]) (Vector [Num b0, Num b1, Num b2])
       = Inr (Vector [Num (d_sub (d_mul a1 b2) (d_mul a2 b1)),
                      Num (d_sub (d_mul a0 b2) (d_mul a2 b0)),
                      Num (d_sub (d_mul a0 b1) (d_mul a1 b0))])"
  by (auto simp add: Vector_vectorProduct_def Vector_assertVectorProductDefined_def
      Vector_getAt_def Vector_checkBounds_def Vector_dimension_def arr_get_def read_slot_def
      lift2_def js_sub_def js_mul_def)

text \<open>
  The instance of the claim: for \<^verbatim>\<open>a = [1, 0, 0]\<close> and \<^verbatim>\<open>b = [0, 1, 0]\<close> the result is
  \<^verbatim>\<open>[0, 0, 1]\<close>; a vector of dimension 2 as the receiver fails.
\<close>

theorem Vector_vectorProduct_correct_witness:
  "Vector_dimension (Vector [Num (d_of_nat 1), Num (d_of_nat 2)]) \<noteq> 3
   \<and> Vector_vectorProduct (Vector [Num (d_of_nat 1), Num (d_of_nat 2)])
        (Vector [Num (d_of_nat 0), Num (d_of_nat 1), Num (d_of_nat 0)])
       = Inl NotThreeDimensional
   \<and> Vector_dimension (Vector [Num (d_of_nat 1), Num (d_of_nat 0), Num (d_of_nat 0)]) = 3
   \<and> Vector_dimension (Vector [Num (d_of_nat 0), Num (d_of_nat 1), Num (d_of_nat 0)]) = 3
   \<and> Vector_vectorProduct (Vector [Num (d_of_nat 1), Num (d_of_nat 0), Num (d_of_nat 0)])
        (Vector [Num (d_of_nat 0), Num (d_of_nat 1), Num (d_of_nat 0)])
       = Inr (Vector [Num (d_of_nat 0), Num (d_of_nat 0), Num (d_of_nat 1)])"
proof -
  let ?a = "Vector [Num (d_of_nat 1), Num (d_of_nat 0), Num (d_of_nat 0)]"
  let ?b = "Vector [Num (d_of_nat 0), Num (d_of_nat 1), Num (d_of_nat 0)]"
  let ?c = "Vector [Num (d_of_nat 1), Num (d_of_nat 2)]"
  have d: "Vector_dimension ?c \<noteq> 3" "Vector_dimension ?a = 3" "Vector_dimension ?b = 3"
    by (simp_all add: Vector_dimension_def)
  have fail: "Vector_vectorProduct ?c ?b = Inl NotThreeDimensional"
    using Vector_vectorProduct_correct [of ?c ?b] d(1) by blast
  have "Vector_vectorProduct ?a ?b = Inr (Vector
          [js_sub (js_mul (arr_get (vector ?a) 1) (arr_get (vector ?b) 2))
                  (js_mul (arr_get (vector ?a) 2) (arr_get (vector ?b) 1)),
           js_sub (js_mul (arr_get (vector ?a) 0) (arr_get (vector ?b) 2))
                  (js_mul (arr_get (vector ?a) 2) (arr_get (vector ?b) 0)),
           js_sub (js_mul (arr_get (vector ?a) 0) (arr_get (vector ?b) 1))
                  (js_mul (arr_get (vector ?a) 1) (arr_get (vector ?b) 0))])"
    using Vector_vectorProduct_correct [of ?a ?b] d(2,3) by blast
  moreover have "[js_sub (js_mul (arr_get (vector ?a) 1) (arr_get (vector ?b) 2))
                  (js_mul (arr_get (vector ?a) 2) (arr_get (vector ?b) 1)),
           js_sub (js_mul (arr_get (vector ?a) 0) (arr_get (vector ?b) 2))
                  (js_mul (arr_get (vector ?a) 2) (arr_get (vector ?b) 0)),
           js_sub (js_mul (arr_get (vector ?a) 0) (arr_get (vector ?b) 1))
                  (js_mul (arr_get (vector ?a) 1) (arr_get (vector ?b) 0))]
        = [Num (d_of_nat 0), Num (d_of_nat 0), Num (d_of_nat 1)]"
    by code_simp
  ultimately have "Vector_vectorProduct ?a ?b
      = Inr (Vector [Num (d_of_nat 0), Num (d_of_nat 0), Num (d_of_nat 1)])"
    by (simp only:)
  with d fail show ?thesis by (simp only: simp_thms)
qed

text \<open>What \<^verbatim>\<open>getAt\<close> returns: the element inside the bounds, the error outside.\<close>

lemma Vector_getAt_in:
  "0 \<le> i \<Longrightarrow> i < int (Vector_dimension w) \<Longrightarrow> Vector_getAt w i = Inr (arr_get (vector w) i)"
  by (simp add: Vector_getAt_def Vector_checkBounds_def)

lemma Vector_getAt_out:
  "i < 0 \<or> int (Vector_dimension v) \<le> i \<Longrightarrow> Vector_getAt v i = Inl IndexOutOfBounds"
  by (auto simp add: Vector_getAt_def Vector_checkBounds_def)

lemma Vector_getAt_total:
  "Vector_getAt v i = Inl IndexOutOfBounds \<or> (\<exists>c. Vector_getAt v i = Inr c)"
  by (simp add: Vector_getAt_def Vector_checkBounds_def)

text \<open>
  The callback of \<^verbatim>\<open>add\<close> run over the slots from index \<open>i\<close> on. It is called on the
  slots that are not empty: the call succeeds when the argument has an element at the
  index of each of them, and fails when one of them is at an index the argument does
  not have.
\<close>

lemma array_map_add_ok:
  "\<forall>k<length xs. Vector_dimension w \<le> i + k \<longrightarrow> xs ! k = Hole \<Longrightarrow>
   array_map (\<lambda>x i arr. case Vector_getAt w (int i) of Inl e \<Rightarrow> Inl e
                          | Inr y \<Rightarrow> Inr (js_add x y)) arr i xs
     = Inr (map (\<lambda>k. if xs ! k = Hole then Hole
                      else js_add (xs ! k) (arr_get (vector w) (int (i + k)))) [0..<length xs])"
proof (induction xs arbitrary: i)
  case Nil
  then show ?case by simp
next
  case (Cons x xs)
  have rest: "\<forall>k<length xs. Vector_dimension w \<le> Suc i + k \<longrightarrow> xs ! k = Hole"
  proof (intro allI impI)
    fix k assume "k < length xs" "Vector_dimension w \<le> Suc i + k"
    with Cons.prems [rule_format, of "Suc k"] show "xs ! k = Hole" by simp
  qed
  show ?case
  proof (cases "x = Hole")
    case True
    with Cons.IH [OF rest] show ?thesis
      by (simp add: map_upt_Suc del: upt_Suc)
  next
    case False
    with Cons.prems [rule_format, of 0] have "\<not> Vector_dimension w \<le> i" by auto
    then have "i < Vector_dimension w" by simp
    then have "Vector_getAt w (int i) = Inr (arr_get (vector w) (int i))"
      by (simp add: Vector_getAt_in)
    with False Cons.IH [OF rest] show ?thesis
      by (simp add: map_upt_Suc del: upt_Suc)
  qed
qed

lemma array_map_add_fail:
  "k < length xs \<Longrightarrow> Vector_dimension w \<le> i + k \<Longrightarrow> xs ! k \<noteq> Hole \<Longrightarrow>
   array_map (\<lambda>x i arr. case Vector_getAt w (int i) of Inl e \<Rightarrow> Inl e
                          | Inr y \<Rightarrow> Inr (js_add x y)) arr i xs
     = Inl IndexOutOfBounds"
proof (induction xs arbitrary: i k)
  case Nil
  then show ?case by simp
next
  case (Cons x xs)
  show ?case
  proof (cases "x \<noteq> Hole \<and> Vector_dimension w \<le> i")
    case True
    then have "Vector_getAt w (int i) = Inl IndexOutOfBounds"
      by (simp add: Vector_getAt_out)
    with True show ?thesis by simp
  next
    case False
    with Cons.prems have "k \<noteq> 0" by (cases k) auto
    then obtain k' where k: "k = Suc k'" by (cases k) auto
    with Cons.prems have "k' < length xs" "Vector_dimension w \<le> Suc i + k'" "xs ! k' \<noteq> Hole"
      by simp_all
    from Cons.IH [OF this] Vector_getAt_total [of w "int i"]
    show ?thesis by auto
  qed
qed

text \<open>
  Claim C8, as the code has it. \<^verbatim>\<open>v.add(w)\<close> calls \<^verbatim>\<open>w.getAt(i)\<close> for the slots \<open>i\<close> of
  \<open>v\<close> that are not empty, and leaves the empty slots of \<open>v\<close> empty. When \<open>w\<close> has more
  elements than \<open>v\<close> (or when every slot of \<open>v\<close> at an index that \<open>w\<close> does not have is
  empty), the call succeeds and returns the vector of the dimension of \<open>v\<close> whose
  \<open>i\<close>-th slot is empty where that of \<open>v\<close> is and holds \<open>v[i] + w[i]\<close> otherwise, the
  further elements of \<open>w\<close> being ignored. When \<open>w\<close> has fewer elements than \<open>v\<close> and a
  slot of \<open>v\<close> at an index that \<open>w\<close> does not have is not empty, the call fails with
  the error of the bounds check of \<^verbatim>\<open>getAt\<close>; so it does for every \<open>v\<close> without
  empty slots.
\<close>

theorem Vector_add_unequal_dimensions:
  "(Vector_dimension v < Vector_dimension w
      \<or> (\<forall>i. Vector_dimension w \<le> i \<and> i < Vector_dimension v \<longrightarrow> vector v ! i = Hole) \<longrightarrow>
      Vector_add v w
        = Inr (Vector (map (\<lambda>i. if vector v ! i = Hole then Hole
                                 else js_add (vector v ! i) (arr_get (vector w) (int i)))
                           [0..<Vector_dimension v])))
   \<and> (Vector_dimension w < Vector_dimension v
        \<and> (\<exists>i. Vector_dimension w \<le> i \<and> i < Vector_dimension v \<and> vector v ! i \<noteq> Hole) \<longrightarrow>
        Vector_add v w = Inl IndexOutOfBounds)
   \<and> (Vector_dimension w < Vector_dimension v \<and> Hole \<notin> set (vector v) \<longrightarrow>
        Vector_add v w = Inl IndexOutOfBounds)"
proof (intro conjI impI)
  assume "Vector_dimension v < Vector_dimension w
      \<or> (\<forall>i. Vector_dimension w \<le> i \<and> i < Vector_dimension v \<longrightarrow> vector v ! i = Hole)"
  then have "\<forall>k<length (vector v). Vector_dimension w \<le> 0 + k \<longrightarrow> vector v ! k = Hole"
    by (auto simp add: Vector_dimension_def)
  from array_map_add_ok [OF this]
  show "Vector_add v w
        = Inr (Vector (map (\<lambda>i. if vector v ! i = Hole then Hole
                                 else js_add (vector v ! i) (arr_get (vector w) (int i)))
                           [0..<Vector_dimension v]))"
    by (simp add: Vector_add_def Vector_map_def Vector_dimension_def)
next
  assume "Vector_dimension w < Vector_dimension v
        \<and> (\<exists>i. Vector_dimension w \<le> i \<and> i < Vector_dimension v \<and> vector v ! i \<noteq> Hole)"
  then obtain i where "i < length (vector v)" "Vector_dimension w \<le> 0 + i" "vector v ! i \<noteq> Hole"
    by (auto simp add: Vector_dimension_def)
  from array_map_add_fail [OF this]
  show "Vector_add v w = Inl IndexOutOfBounds"
    by (simp add: Vector_add_def Vector_map_def)
next
  assume a: "Vector_dimension w < Vector_dimension v \<and> Hole \<notin> set (vector v)"
  then have len: "Vector_dimension w < length (vector v)"
    by (simp add: Vector_dimension_def)
  then have "vector v ! Vector_dimension w \<in> set (vector v)"
    by (rule nth_mem)
  with a have "vector v ! Vector_dimension w \<noteq> Hole"
    by auto
  from array_map_add_fail [OF len _ this, of w 0]
  show "Vector_add v w = Inl IndexOutOfBounds"
    by (simp add: Vector_add_def Vector_map_def)
qed

text \<open>
  Two instances: \<^verbatim>\<open>[1, 2].add([10, 20, 30])\<close> is \<^verbatim>\<open>[11, 22]\<close>, and
  \<^verbatim>\<open>[1, 2, 3].add([1, 2])\<close> fails with the error of the bounds check.
\<close>

theorem Vector_add_unequal_dimensions_witness:
  "Vector_dimension (Vector [Num (d_of_nat 1), Num (d_of_nat 2)])
     < Vector_dimension (Vector [Num (d_of_nat 10), Num (d_of_nat 20), Num (d_of_nat 30)])
   \<and> Vector_add (Vector [Num (d_of_nat 1), Num (d_of_nat 2)])
                (Vector [Num (d_of_nat 10), Num (d_of_nat 20), Num (d_of_nat 30)])
       = Inr (Vector [Num (d_of_nat 11), Num (d_of_nat 22)])
   \<and> Vector_dimension (Vector [Num (d_of_nat 1), Num (d_of_nat 2)])
       < Vector_dimension (Vector [Num (d_of_nat 1), Num (d_of_nat 2), Num (d_of_nat 3)])
   \<and> Vector_dimension (Vector [Num (d_of_nat 1), Num (d_of_nat 2)]) \<le> 2
   \<and> 2 < Vector_dimension (Vector [Num (d_of_nat 1), Num (d_of_nat 2), Num (d_of_nat 3)])
   \<and> vector (Vector [Num (d_of_nat 1), Num (d_of_nat 2), Num (d_of_nat 3)]) ! 2 \<noteq> Hole
   \<and> Hole \<notin> set (vector (Vector [Num (d_of_nat 1), Num (d_of_nat 2), Num (d_of_nat 3)]))
   \<and> Vector_add (Vector [Num (d_of_nat 1), Num (d_of_nat 2), Num (d_of_nat 3)])
                (Vector [Num (d_of_nat 1), Num (d_of_nat 2)])
       = Inl IndexOutOfBounds"
proof -
  let ?v = "Vector [Num (d_of_nat 1), Num (d_of_nat 2)]"
  let ?w = "Vector [Num (d_of_nat 10), Num (d_of_nat 20), Num (d_of_nat 30)]"
  let ?u = "Vector [Num (d_of_nat 1), Num (d_of_nat 2), Num (d_of_nat 3)]"
  have d: "Vector_dimension ?v < Vector_dimension ?w" "Vector_dimension ?v < Vector_dimension ?u"
    "Vector_dimension ?v \<le> 2" "2 < Vector_dimension ?u" "vector ?u ! 2 \<noteq> Hole"
    "Hole \<notin> set (vector ?u)"
    by (simp_all add: Vector_dimension_def)
  have "Vector_add ?v ?w
        = Inr (Vector (map (\<lambda>i. if vector ?v ! i = Hole then Hole
                                 else js_add (vector ?v ! i) (arr_get (vector ?w) (int i)))
                           [0..<Vector_dimension ?v]))"
    using Vector_add_unequal_dimensions [of ?v ?w] d(1) by blast
  moreover have "map (\<lambda>i. if vector ?v ! i = Hole then Hole
                                 else js_add (vector ?v ! i) (arr_get (vector ?w) (int i)))
                           [0..<Vector_dimension ?v]
                 = [Num (d_of_nat 11), Num (d_of_nat 22)]"
    by code_simp
  ultimately have ok: "Vector_add ?v ?w = Inr (Vector [Num (d_of_nat 11), Num (d_of_nat 22)])"
    by (simp only:)
  have "\<exists>i. Vector_dimension ?v \<le> i \<and> i < Vector_dimension ?u \<and> vector ?u ! i \<noteq> Hole"
    using d(3,4,5) by blast
  then have fail: "Vector_add ?u ?v = Inl IndexOutOfBounds"
    using Vector_add_unequal_dimensions [of ?u ?v] d(2) by blast
  from d ok fail show ?thesis by (simp only: simp_thms)
qed

text \<open>
  The claim as stated fails for a receiver with empty slots.
  \<^verbatim>\<open>new Vector(new Vector([2]))\<close> is the vector of two empty slots (the copy is made
  by \<^verbatim>\<open>new Array(...[2])\<close>, the array of length 2). Adding the empty vector to it
  returns two empty slots and no error, although the argument has fewer elements than
  the receiver; adding \<^verbatim>\<open>[1, 2, 3]\<close> to it returns two empty slots too, which read
  as \<^verbatim>\<open>undefined\<close>, where \<open>v[0] + w[0]\<close> is \<^verbatim>\<open>undefined + 1\<close>, that is \<^verbatim>\<open>NaN\<close>.
\<close>

theorem Vector_add_empty_slots_counterexample:
  "Vector_constructor (VVector (Vector [Num (d_of_nat 2)])) None = Inr (Vector [Hole, Hole])
   \<and> Vector_dimension (Vector []) < Vector_dimension (Vector [Hole, Hole])
   \<and> Vector_add (Vector [Hole, Hole]) (Vector []) = Inr (Vector [Hole, Hole])
   \<and> Vector_dimension (Vector [Hole, Hole])
       < Vector_dimension (Vector [Num (d_of_nat 1), Num (d_of_nat 2), Num (d_of_nat 3)])
   \<and> Vector_add (Vector [Hole, Hole]) (Vector [Num (d_of_nat 1), Num (d_of_nat 2), Num (d_of_nat 3)])
       = Inr (Vector [Hole, Hole])
   \<and> Vector_getAt (Vector [Hole, Hole]) 0 = Inr Undefined
   \<and> js_add Undefined (Num (d_of_nat 1)) = Num NaN"
  by code_simp

section \<open>Bounds of a matrix\<close>

lemma Matrix_checkBounds_out:
  "i < 0 \<or> j < 0 \<or> int (Matrix_n M) \<le> i \<or> (Matrix_m M = Inr m \<and> int m \<le> j) \<Longrightarrow>
   Matrix_checkBounds M i j = Inl IndexOutOfBounds"
  by (auto simp add: Matrix_checkBounds_def)

lemma Matrix_checkBounds_total:
  "Matrix_checkBounds M i j = Inl IndexOutOfBounds \<or> Matrix_checkBounds M i j = Inr ()"
  by (cases "matrix M") (auto simp add: Matrix_checkBounds_def Matrix_m_def Matrix_n_def)

lemma forEach_checkBounds_fail:
  "(i, j) \<in> set indices \<Longrightarrow> Matrix_checkBounds M i j = Inl IndexOutOfBounds \<Longrightarrow>
   forEach_checkBounds M indices = Inl IndexOutOfBounds"
proof (induction indices)
  case Nil
  then show ?case by simp
next
  case (Cons p indices)
  obtain i' j' where p: "p = (i', j')" by (cases p)
  from Cons Matrix_checkBounds_total [of M i' j'] show ?case
    by (auto simp add: p)
qed

lemma arr2_set_nat:
  "i < length acc \<Longrightarrow> j < length (acc ! i) \<Longrightarrow>
   arr2_set acc (int i) (int j) v = Inr (acc[i := (acc ! i)[j := v]])"
  by (simp add: arr2_set_def arr_set_def)

section \<open>setMultiple on the store\<close>

text \<open>
  The call on the store does what the call on the rows does: it returns the same
  error, or the addresses of new arrays that hold the rows of the same matrix, and the
  store after the call is the store before it followed by the new arrays. No array
  that existed before the call is written, those of the receiver included.
\<close>

lemma rows_of_append: "\<forall>a\<in>set refs. a < length h \<Longrightarrow> rows_of (h @ h') refs = rows_of h refs"
  by (simp add: rows_of_def nth_append)

lemma rows_of_fresh: "rows_of (h @ cur) [length h..<length h + length cur] = cur"
proof (rule nth_equalityI)
  show "length (rows_of (h @ cur) [length h..<length h + length cur]) = length cur"
    by (simp add: rows_of_def)
next
  fix i assume "i < length (rows_of (h @ cur) [length h..<length h + length cur])"
  then have "i < length cur" by (simp add: rows_of_def)
  then show "rows_of (h @ cur) [length h..<length h + length cur] ! i = cur ! i"
    by (simp add: rows_of_def)
qed

lemma valid_refs_append: "\<forall>a\<in>set refs. a < length h \<Longrightarrow> \<forall>a\<in>set refs. a < length (h @ h')"
  by auto

lemma to2dArray_store_ok:
  "\<forall>a\<in>set refs. a < length h \<Longrightarrow> mapM new_Array_spread (rows_of h refs) = Inr rows \<Longrightarrow>
   to2dArray_store h refs = (h @ rows, Inr [length h..<length h + length rows])"
proof (induction refs arbitrary: h rows)
  case Nil
  then show ?case by (simp add: rows_of_def)
next
  case (Cons a refs)
  from Cons.prems(2) obtain row rows'
    where row: "new_Array_spread (h ! a) = Inr row"
      and rest: "mapM new_Array_spread (rows_of h refs) = Inr rows'"
      and rows: "rows = row # rows'"
    by (auto simp add: rows_of_def split: sum.splits)
  from Cons.prems(1) have valid: "\<forall>a\<in>set refs. a < length (h @ [row])"
    by auto
  from Cons.prems(1) have "rows_of (h @ [row]) refs = rows_of h refs"
    by (simp add: rows_of_append)
  with rest have "mapM new_Array_spread (rows_of (h @ [row]) refs) = Inr rows'"
    by simp
  from Cons.IH [OF valid this]
  have "to2dArray_store (h @ [row]) refs
      = (h @ row # rows', Inr [Suc (length h)..<Suc (length h) + length rows'])"
    by (simp del: upt_Suc)
  moreover have "[length h..<length h + length (row # rows')]
      = length h # [Suc (length h)..<Suc (length h) + length rows']"
    by (simp add: upt_conv_Cons del: upt_Suc)
  ultimately show ?case
    using row by (simp add: rows del: upt_Suc)
qed

lemma to2dArray_store_err:
  "\<forall>a\<in>set refs. a < length h \<Longrightarrow> mapM new_Array_spread (rows_of h refs) = Inl e \<Longrightarrow>
   \<exists>extra. to2dArray_store h refs = (h @ extra, Inl e)"
proof (induction refs arbitrary: h)
  case Nil
  then show ?case by (simp add: rows_of_def)
next
  case (Cons a refs)
  show ?case
  proof (cases "new_Array_spread (h ! a)")
    case (Inl e')
    with Cons.prems(2) have "e' = e"
      by (simp add: rows_of_def)
    with Inl have "to2dArray_store h (a # refs) = (h @ [], Inl e)"
      by simp
    then show ?thesis by blast
  next
    case (Inr row)
    with Cons.prems(2) have rest: "mapM new_Array_spread (rows_of h refs) = Inl e"
      by (simp add: rows_of_def split: sum.splits)
    from Cons.prems(1) have valid: "\<forall>a\<in>set refs. a < length (h @ [row])"
      by auto
    from Cons.prems(1) have "rows_of (h @ [row]) refs = rows_of h refs"
      by (simp add: rows_of_append)
    with rest have "mapM new_Array_spread (rows_of (h @ [row]) refs) = Inl e"
      by simp
    from Cons.IH [OF valid this] obtain extra
      where "to2dArray_store (h @ [row]) refs = ((h @ [row]) @ extra, Inl e)"
      by blast
    with Inr have "to2dArray_store h (a # refs) = (h @ (row # extra), Inl e)"
      by simp
    then show ?thesis by blast
  qed
qed


lemma store_write_fresh:
  "k < length cur \<Longrightarrow>
   (h @ cur)[[length h..<length h + length cur] ! k
              := arr_set ((h @ cur) ! ([length h..<length h + length cur] ! k)) j v]
     = h @ cur[k := arr_set (cur ! k) j v]"
  by (simp add: list_update_append nth_append)

lemma forEach_set_length:
  "forEach_set vs index indices cur = Inr cur' \<Longrightarrow> length cur' = length cur"
proof (induction vs arbitrary: index cur)
  case Nil
  then show ?case by simp
next
  case (Cons v vs)
  from Cons.prems obtain i j cur1 where "arr2_set cur i j (Num v) = Inr cur1"
    and "forEach_set vs (Suc index) indices cur1 = Inr cur'"
    by (auto split: if_splits prod.splits sum.splits)
  with Cons.IH [of "Suc index" cur1] show ?case
    by (auto simp add: arr2_set_def split: if_splits)
qed

lemma forEach_set_store_ok:
  "forEach_set vs index indices cur = Inr cur' \<Longrightarrow>
   forEach_set_store vs index indices (h @ cur) [length h..<length h + length cur]
     = (h @ cur', Inr ())"
proof (induction vs arbitrary: index cur)
  case Nil
  then show ?case by simp
next
  case (Cons v vs)
  from Cons.prems have index: "index < length indices"
    by (simp split: if_splits)
  obtain i j where p: "indices ! index = (i, j)"
    by (cases "indices ! index")
  from Cons.prems index p have i: "0 \<le> i" "i < int (length cur)"
    and rest: "forEach_set vs (Suc index) indices (cur[nat i := arr_set (cur ! nat i) j (Num v)])
        = Inr cur'"
    by (auto simp add: arr2_set_def split: if_splits)
  from i have k: "nat i < length cur" by simp
  from Cons.IH [OF rest]
  have "forEach_set_store vs (Suc index) indices
      (h @ cur[nat i := arr_set (cur ! nat i) j (Num v)]) [length h..<length h + length cur]
      = (h @ cur', Inr ())"
    by simp
  with index p i show ?case
    by (simp only: forEach_set_store.simps if_True prod.case store_write_fresh [OF k]
        length_upt add_diff_cancel_left' simp_thms)
qed

lemma forEach_set_store_err:
  "forEach_set vs index indices cur = Inl e \<Longrightarrow>
   \<exists>cur'. forEach_set_store vs index indices (h @ cur) [length h..<length h + length cur]
     = (h @ cur', Inl e)"
proof (induction vs arbitrary: index cur)
  case Nil
  then show ?case by simp
next
  case (Cons v vs)
  show ?case
  proof (cases "index < length indices")
    case False
    with Cons.prems have "e = TypeError" by simp
    with False show ?thesis by simp
  next
    case True
    obtain i j where p: "indices ! index = (i, j)"
      by (cases "indices ! index")
    show ?thesis
    proof (cases "0 \<le> i \<and> i < int (length cur)")
      case False
      with Cons.prems True p have "e = TypeError"
        by (auto simp add: arr2_set_def split: if_splits)
      with False True p show ?thesis
        by auto
    next
      case i: True
      with Cons.prems True p
      have rest: "forEach_set vs (Suc index) indices (cur[nat i := arr_set (cur ! nat i) j (Num v)])
          = Inl e"
        by (auto simp add: arr2_set_def split: if_splits)
      from i have k: "nat i < length cur" by auto
      from Cons.IH [OF rest] obtain cur'
        where "forEach_set_store vs (Suc index) indices
          (h @ cur[nat i := arr_set (cur ! nat i) j (Num v)]) [length h..<length h + length cur]
          = (h @ cur', Inl e)"
        by auto
      with True p i have "forEach_set_store (v # vs) index indices (h @ cur)
          [length h..<length h + length cur] = (h @ cur', Inl e)"
        by (simp only: forEach_set_store.simps if_True prod.case store_write_fresh [OF k]
            length_upt add_diff_cancel_left' simp_thms)
      then show ?thesis by blast
    qed
  qed
qed


lemma Matrix_setMultiple_Inr:
  assumes "Matrix_setMultiple M values indices = Inr M'"
  obtains arr arr' where "forEach_checkBounds M indices = Inr ()"
    and "Matrix_to2dArray M = Inr arr"
    and "forEach_set values 0 indices arr = Inr arr'"
    and "Matrix_assertValidity arr' = Inr ()" and "M' = Matrix arr'"
  using assms
  by (auto simp add: Matrix_setMultiple_def split: sum.splits)

lemma Matrix_setMultiple_store_ok:
  assumes valid: "\<forall>a\<in>set this. a < length h"
    and ok: "Matrix_setMultiple (Matrix (rows_of h this)) values indices = Inr M"
  shows "Matrix_setMultiple_store h this values indices
    = (h @ matrix M, Inr [length h..<length h + Matrix_n M])"
proof -
  from ok obtain arr arr'
    where chk: "forEach_checkBounds (Matrix (rows_of h this)) indices = Inr ()"
      and copy: "Matrix_to2dArray (Matrix (rows_of h this)) = Inr arr"
      and set: "forEach_set values 0 indices arr = Inr arr'"
      and va: "Matrix_assertValidity arr' = Inr ()" and M: "M = Matrix arr'"
    by (rule Matrix_setMultiple_Inr)
  from copy have "mapM new_Array_spread (rows_of h this) = Inr arr"
    by (simp add: Matrix_to2dArray_def)
  from to2dArray_store_ok [OF valid this]
  have s1: "to2dArray_store h this = (h @ arr, Inr [length h..<length h + length arr])" .
  from forEach_set_store_ok [OF set]
  have s2: "forEach_set_store values 0 indices (h @ arr) [length h..<length h + length arr]
      = (h @ arr', Inr ())" .
  from forEach_set_length [OF set] have len: "length arr' = length arr" .
  from rows_of_fresh [of h arr'] have s3: "rows_of (h @ arr') [length h..<length h + length arr] = arr'"
    by (simp only: len)
  show ?thesis
    by (simp only: Matrix_setMultiple_store_def chk s1 s2 s3 va M sum.case prod.case
        Matrix_n_def Matrix.sel len)
qed

lemma Matrix_setMultiple_store_err:
  assumes valid: "\<forall>a\<in>set this. a < length h"
    and err: "Matrix_setMultiple (Matrix (rows_of h this)) values indices = Inl e"
  shows "\<exists>extra. Matrix_setMultiple_store h this values indices = (h @ extra, Inl e)"
proof (cases "forEach_checkBounds (Matrix (rows_of h this)) indices")
  case (Inl e')
  with err have "e' = e"
    by (simp add: Matrix_setMultiple_def)
  with Inl have "Matrix_setMultiple_store h this values indices = (h @ [], Inl e)"
    by (simp add: Matrix_setMultiple_store_def)
  then show ?thesis by blast
next
  case chk: (Inr u)
  show ?thesis
  proof (cases "mapM new_Array_spread (rows_of h this)")
    case (Inl e')
    with err chk have "e' = e"
      by (simp add: Matrix_setMultiple_def Matrix_to2dArray_def)
    with Inl to2dArray_store_err [OF valid, of e] obtain extra
      where "to2dArray_store h this = (h @ extra, Inl e)"
      by auto
    with chk have "Matrix_setMultiple_store h this values indices = (h @ extra, Inl e)"
      by (simp add: Matrix_setMultiple_store_def)
    then show ?thesis by blast
  next
    case copy: (Inr arr)
    from to2dArray_store_ok [OF valid copy]
    have s1: "to2dArray_store h this = (h @ arr, Inr [length h..<length h + length arr])" .
    show ?thesis
    proof (cases "forEach_set values 0 indices arr")
      case (Inl e')
      with err chk copy have "e' = e"
        by (simp add: Matrix_setMultiple_def Matrix_to2dArray_def)
      with Inl forEach_set_store_err [of "values" 0 indices arr e h] obtain cur'
        where "forEach_set_store values 0 indices (h @ arr) [length h..<length h + length arr]
          = (h @ cur', Inl e)"
        by auto
      with chk s1 have "Matrix_setMultiple_store h this values indices = (h @ cur', Inl e)"
        by (simp add: Matrix_setMultiple_store_def)
      then show ?thesis by blast
    next
      case set: (Inr arr')
      from forEach_set_store_ok [OF set]
      have s2: "forEach_set_store values 0 indices (h @ arr) [length h..<length h + length arr]
          = (h @ arr', Inr ())" .
      from forEach_set_length [OF set] have len: "length arr' = length arr" .
      from rows_of_fresh [of h arr']
      have s3: "rows_of (h @ arr') [length h..<length h + length arr] = arr'"
        by (simp only: len)
      from err chk copy set have "Matrix_assertValidity arr' = Inl e"
        by (simp add: Matrix_setMultiple_def Matrix_to2dArray_def split: sum.splits)
      with chk have "Matrix_setMultiple_store h this values indices = (h @ arr', Inl e)"
        by (simp only: Matrix_setMultiple_store_def s1 s2 s3 sum.case prod.case)
      then show ?thesis by blast
    qed
  qed
qed


text \<open>
  Claim C7: when some pair \<open>(i, j)\<close> of \<^verbatim>\<open>indices\<close> is out of the bounds of the matrix
  (a negative index, \<open>i\<close> not below the number of rows, or \<open>j\<close> not below the number of
  columns), \<^verbatim>\<open>setMultiple\<close> fails with the error of the bounds check, and it fails in
  the first pass, which checks every pair: the result is the error and no matrix, the
  copy of the rows is never made, no value is written, and the store after the call,
  the rows of the receiver in it, is the store before the call.
\<close>

theorem Matrix_setMultiple_all_or_nothing:
  assumes "(i, j) \<in> set indices"
    and "i < 0 \<or> j < 0 \<or> int (Matrix_n M) \<le> i \<or> (Matrix_m M = Inr m \<and> int m \<le> j)"
  shows "forEach_checkBounds M indices = Inl IndexOutOfBounds
    \<and> Matrix_setMultiple M values indices = Inl IndexOutOfBounds
    \<and> (\<forall>h this. M = Matrix (rows_of h this) \<longrightarrow>
          Matrix_setMultiple_store h this values indices = (h, Inl IndexOutOfBounds))"
proof -
  from assms(2) have "Matrix_checkBounds M i j = Inl IndexOutOfBounds"
    by (rule Matrix_checkBounds_out)
  with assms(1) have "forEach_checkBounds M indices = Inl IndexOutOfBounds"
    by (rule forEach_checkBounds_fail)
  then show ?thesis
    by (auto simp add: Matrix_setMultiple_def Matrix_setMultiple_store_def)
qed


theorem Matrix_setMultiple_all_or_nothing_witness:
  "(2, 0) \<in> set [(0, 0), (2, 0 :: int)]
   \<and> int (Matrix_n (Matrix [[Num (d_of_nat 1), Num (d_of_nat 2)], [Num (d_of_nat 3), Num (d_of_nat 4)]])) \<le> 2
   \<and> forEach_checkBounds (Matrix [[Num (d_of_nat 1), Num (d_of_nat 2)], [Num (d_of_nat 3), Num (d_of_nat 4)]]) [(0, 0), (2, 0)]
       = Inl IndexOutOfBounds
   \<and> Matrix_setMultiple (Matrix [[Num (d_of_nat 1), Num (d_of_nat 2)], [Num (d_of_nat 3), Num (d_of_nat 4)]]) [d_of_nat 9, d_of_nat 8] [(0, 0), (2, 0)]
       = Inl IndexOutOfBounds
   \<and> Matrix [[Num (d_of_nat 1), Num (d_of_nat 2)], [Num (d_of_nat 3), Num (d_of_nat 4)]]
       = Matrix (rows_of [[Num (d_of_nat 1), Num (d_of_nat 2)], [Num (d_of_nat 3), Num (d_of_nat 4)]] [0, 1])
   \<and> Matrix_setMultiple_store [[Num (d_of_nat 1), Num (d_of_nat 2)], [Num (d_of_nat 3), Num (d_of_nat 4)]] [0, 1] [d_of_nat 9, d_of_nat 8] [(0, 0), (2, 0)]
       = ([[Num (d_of_nat 1), Num (d_of_nat 2)], [Num (d_of_nat 3), Num (d_of_nat 4)]], Inl IndexOutOfBounds)"
proof -
  have a: "(2, 0) \<in> set [(0, 0), (2, 0 :: int)]" by simp
  have b: "int (Matrix_n (Matrix [[Num (d_of_nat 1), Num (d_of_nat 2)], [Num (d_of_nat 3), Num (d_of_nat 4)]])) \<le> 2"
    by (simp add: Matrix_n_def)
  then have c: "2 < (0::int) \<or> 0 < (0::int)
      \<or> int (Matrix_n (Matrix [[Num (d_of_nat 1), Num (d_of_nat 2)], [Num (d_of_nat 3), Num (d_of_nat 4)]])) \<le> 2
      \<or> (Matrix_m (Matrix [[Num (d_of_nat 1), Num (d_of_nat 2)], [Num (d_of_nat 3), Num (d_of_nat 4)]]) = Inr 0 \<and> int 0 \<le> 0)"
    by simp
  have d: "Matrix [[Num (d_of_nat 1), Num (d_of_nat 2)], [Num (d_of_nat 3), Num (d_of_nat 4)]]
       = Matrix (rows_of [[Num (d_of_nat 1), Num (d_of_nat 2)], [Num (d_of_nat 3), Num (d_of_nat 4)]] [0, 1])"
    by (simp add: rows_of_def)
  note t = Matrix_setMultiple_all_or_nothing [OF a c, of "[d_of_nat 9, d_of_nat 8]"]
  from t have r1: "forEach_checkBounds (Matrix [[Num (d_of_nat 1), Num (d_of_nat 2)], [Num (d_of_nat 3), Num (d_of_nat 4)]]) [(0, 0), (2, 0)]
       = Inl IndexOutOfBounds" by (rule conjunct1)
  from t [THEN conjunct2]
  have r2: "Matrix_setMultiple (Matrix [[Num (d_of_nat 1), Num (d_of_nat 2)], [Num (d_of_nat 3), Num (d_of_nat 4)]]) [d_of_nat 9, d_of_nat 8] [(0, 0), (2, 0)]
       = Inl IndexOutOfBounds" by (rule conjunct1)
  from t [THEN conjunct2]
  have "\<forall>h this. Matrix [[Num (d_of_nat 1), Num (d_of_nat 2)], [Num (d_of_nat 3), Num (d_of_nat 4)]] = Matrix (rows_of h this) \<longrightarrow>
          Matrix_setMultiple_store h this [d_of_nat 9, d_of_nat 8] [(0, 0), (2, 0)] = (h, Inl IndexOutOfBounds)"
    by (rule conjunct2)
  with d have r3: "Matrix_setMultiple_store [[Num (d_of_nat 1), Num (d_of_nat 2)], [Num (d_of_nat 3), Num (d_of_nat 4)]] [0, 1] [d_of_nat 9, d_of_nat 8]
      [(0, 0), (2, 0)] = ([[Num (d_of_nat 1), Num (d_of_nat 2)], [Num (d_of_nat 3), Num (d_of_nat 4)]], Inl IndexOutOfBounds)"
    by blast
  from a b r1 r2 d r3 show ?thesis by (simp only: simp_thms)
qed

section \<open>Matrix multiplication\<close>

declare mm_loop_k.simps [simp del] mm_loop_j.simps [simp del] mm_loop_i.simps [simp del]

text \<open>
  The three loops on two matrices whose numbers of columns can be read (each has a
  first row), when the argument has at least as many rows as the receiver has
  columns: no call of \<^verbatim>\<open>getAt\<close> is out of bounds, and each cell of the result is
  the fold of the innermost loop. The elements are those \<^verbatim>\<open>getAt\<close> reads:
  \<^verbatim>\<open>undefined\<close> for an empty slot or beyond the end of a row.
\<close>

lemma js_add_read_slot: "js_add (read_slot s) c = js_add s c"
  by (cases s) (simp_all add: js_add_def read_slot_def)

lemma Matrix_getAt_in:
  "i < Matrix_n M \<Longrightarrow> Matrix_m M = Inr m \<Longrightarrow> j < m \<Longrightarrow>
   Matrix_getAt M (int i) (int j) = Inr (arr_get (matrix M ! i) (int j))"
  by (simp add: Matrix_getAt_def Matrix_checkBounds_def arr2_get_def Matrix_n_def)

lemma arr2_get_nat:
  "i < length acc \<Longrightarrow> j < length (acc ! i) \<Longrightarrow>
   arr2_get acc (int i) (int j) = Inr (read_slot (acc ! i ! j))"
  by (simp add: arr2_get_def arr_get_def)

lemma cell_sum_Nil: "cell_sum A B i j s [] = s"
  by (simp add: cell_sum_def)

lemma cell_sum_Cons:
  "cell_sum A B i j s (k # ks)
     = cell_sum A B i j (js_add s (js_mul (arr_get (matrix A ! i) (int k))
                                          (arr_get (matrix B ! k) (int j)))) ks"
  by (simp add: cell_sum_def)

lemma mm_loop_k_closed:
  assumes A: "Matrix_m A = Inr k" and B: "Matrix_m B = Inr p" and kb: "k \<le> Matrix_n B"
    and i: "i < Matrix_n A" and j: "j < p"
  shows "kk \<le> k \<Longrightarrow> i < length acc \<Longrightarrow> j < length (acc ! i) \<Longrightarrow>
    mm_loop_k A B i j kk acc
      = Inr (acc[i := (acc ! i)[j := cell_sum A B i j (acc ! i ! j) [kk..<k]]])"
proof (induction "k - kk" arbitrary: kk acc)
  case 0
  then show ?case
    by (subst mm_loop_k.simps) (simp add: A cell_sum_Nil)
next
  case (Suc d)
  from Suc have kk: "kk < k" by simp
  with kb have kkb: "kk < Matrix_n B" by simp
  let ?v = "js_add (acc ! i ! j) (js_mul (arr_get (matrix A ! i) (int kk))
                                          (arr_get (matrix B ! kk) (int j)))"
  let ?acc = "acc[i := (acc ! i)[j := ?v]]"
  have IH: "mm_loop_k A B i j (Suc kk) ?acc
      = Inr (?acc[i := (?acc ! i)[j := cell_sum A B i j (?acc ! i ! j) [Suc kk..<k]]])"
    using Suc.hyps(2) kk Suc.prems by (intro Suc.hyps(1)) simp_all
  have s: "cell_sum A B i j (acc ! i ! j) [kk..<k] = cell_sum A B i j ?v [Suc kk..<k]"
    using kk by (simp add: upt_conv_Cons cell_sum_Cons)
  show ?case
    using kk Suc.prems
    by (subst mm_loop_k.simps)
      (simp add: A arr2_get_nat arr2_set_nat lift2_def js_add_read_slot
        Matrix_getAt_in [OF i A kk] Matrix_getAt_in [OF kkb B j] IH s)
qed

lemma mm_loop_j_closed:
  assumes A: "Matrix_m A = Inr k" and B: "Matrix_m B = Inr p" and kb: "k \<le> Matrix_n B"
    and i: "i < Matrix_n A"
  shows "jj \<le> p \<Longrightarrow> i < length acc \<Longrightarrow> length (acc ! i) = p \<Longrightarrow>
    \<forall>j. jj \<le> j \<and> j < p \<longrightarrow> acc ! i ! j = Num d_zero \<Longrightarrow>
    mm_loop_j A B i jj acc
      = Inr (acc[i := take jj (acc ! i)
               @ map (\<lambda>j. cell_sum A B i j (Num d_zero) [0..<k]) [jj..<p]])"
proof (induction "p - jj" arbitrary: jj acc)
  case 0
  then show ?case
    by (subst mm_loop_j.simps) (simp add: B)
next
  case (Suc d)
  from Suc have jj: "jj < p" by simp
  let ?v = "cell_sum A B i jj (Num d_zero) [0..<k]"
  let ?acc = "acc[i := (acc ! i)[jj := ?v]]"
  from Suc.prems jj have z: "acc ! i ! jj = Num d_zero" by simp
  have inner: "mm_loop_k A B i jj 0 acc = Inr ?acc"
    using mm_loop_k_closed [OF A B kb i jj, of 0 acc] jj Suc.prems z by simp
  have IH: "mm_loop_j A B i (Suc jj) ?acc
      = Inr (?acc[i := take (Suc jj) (?acc ! i)
               @ map (\<lambda>j. cell_sum A B i j (Num d_zero) [0..<k]) [Suc jj..<p]])"
    using Suc.hyps(2) jj Suc.prems by (intro Suc.hyps(1)) simp_all
  have t: "take (Suc jj) ((acc ! i)[jj := ?v]) = take jj (acc ! i) @ [?v]"
    using jj Suc.prems by (simp add: take_Suc_conv_app_nth)
  show ?case
    using jj Suc.prems
    by (subst mm_loop_j.simps) (simp add: B inner IH t upt_conv_Cons)
qed

lemma mm_loop_i_closed:
  assumes A: "Matrix_m A = Inr k" and B: "Matrix_m B = Inr p" and kb: "k \<le> Matrix_n B"
  shows "ii \<le> Matrix_n A \<Longrightarrow> length acc = Matrix_n A \<Longrightarrow>
    \<forall>i. ii \<le> i \<and> i < Matrix_n A \<longrightarrow> acc ! i = replicate p (Num d_zero) \<Longrightarrow>
    mm_loop_i A B ii acc
      = Inr (take ii acc
               @ map (\<lambda>i. map (\<lambda>j. cell_sum A B i j (Num d_zero) [0..<k]) [0..<p])
                   [ii..<Matrix_n A])"
proof (induction "Matrix_n A - ii" arbitrary: ii acc)
  case 0
  then show ?case
    by (subst mm_loop_i.simps) simp
next
  case (Suc d)
  from Suc have ii: "ii < Matrix_n A" by simp
  let ?row = "map (\<lambda>j. cell_sum A B ii j (Num d_zero) [0..<k]) [0..<p]"
  let ?acc = "acc[ii := ?row]"
  from Suc.prems ii have z: "acc ! ii = replicate p (Num d_zero)" by simp
  have inner: "mm_loop_j A B ii 0 acc = Inr ?acc"
    using mm_loop_j_closed [OF A B kb ii, of 0 acc] ii Suc.prems z by simp
  have IH: "mm_loop_i A B (Suc ii) ?acc
      = Inr (take (Suc ii) ?acc
               @ map (\<lambda>i. map (\<lambda>j. cell_sum A B i j (Num d_zero) [0..<k]) [0..<p])
                   [Suc ii..<Matrix_n A])"
    using Suc.hyps(2) ii Suc.prems by (intro Suc.hyps(1)) simp_all
  have t: "take (Suc ii) ?acc = take ii acc @ [?row]"
    using ii Suc.prems by (simp add: take_Suc_conv_app_nth)
  show ?case
    using ii Suc.prems
    by (subst mm_loop_i.simps) (simp add: inner IH t upt_conv_Cons)
qed

lemma Matrix_constructor_MArray:
  "rows \<noteq> [] \<Longrightarrow> \<forall>r\<in>set rows. length r = p \<Longrightarrow>
   Matrix_constructor (MArray rows) None None = Inr (Matrix rows)"
  by (cases rows) (simp_all add: Matrix_assertValidity_def list_all_iff)

lemma Matrix_m_rows: "Matrix_m M = Inr m \<Longrightarrow> 0 < Matrix_n M"
  by (cases "matrix M") (simp_all add: Matrix_m_def Matrix_n_def)

lemma matrixMultiplication_closed:
  assumes A: "Matrix_m A = Inr k" and B: "Matrix_m B = Inr p" and kb: "k \<le> Matrix_n B"
  shows "Matrix_matrixMultiplication A B
    = Inr (Matrix (map (\<lambda>i. map (\<lambda>j. cell_sum A B i j (Num d_zero) [0..<k]) [0..<p])
                     [0..<Matrix_n A]))"
proof -
  from Matrix_m_rows [OF A] have n: "0 < Matrix_n A" .
  have loop: "mm_loop_i A B 0 (replicate (Matrix_n A) (replicate p (Num d_zero)))
     = Inr (map (\<lambda>i. map (\<lambda>j. cell_sum A B i j (Num d_zero) [0..<k]) [0..<p])
                   [0..<Matrix_n A])"
    using mm_loop_i_closed [OF A B kb, of 0 "replicate (Matrix_n A) (replicate p (Num d_zero))"]
    by simp
  have ctor: "Matrix_constructor
       (MArray (map (\<lambda>i. map (\<lambda>j. cell_sum A B i j (Num d_zero) [0..<k]) [0..<p])
                   [0..<Matrix_n A])) None None
     = Inr (Matrix (map (\<lambda>i. map (\<lambda>j. cell_sum A B i j (Num d_zero) [0..<k]) [0..<p])
                   [0..<Matrix_n A]))"
    using n by (intro Matrix_constructor_MArray [where p = p]) auto
  from n show ?thesis
    by (simp add: Matrix_matrixMultiplication_def B loop ctor del: Matrix_constructor.simps)
qed

text \<open>
  When the receiver has more columns than the argument has rows, the innermost loop
  reaches the first row the argument does not have, and \<^verbatim>\<open>getAt\<close> throws there.
\<close>

lemma Matrix_getAt_ok:
  "i < Matrix_n M \<Longrightarrow> Matrix_m M = Inr m \<Longrightarrow> j < m \<Longrightarrow>
   \<exists>c. Matrix_getAt M (int i) (int j) = Inr c"
  by (simp add: Matrix_getAt_def Matrix_checkBounds_def arr2_get_def Matrix_n_def)

lemma Matrix_getAt_row_out:
  "Matrix_n M \<le> i \<Longrightarrow> Matrix_getAt M (int i) j = Inl IndexOutOfBounds"
  by (simp add: Matrix_getAt_def Matrix_checkBounds_def)

lemma arr2_get_ok: "i < length acc \<Longrightarrow> \<exists>c. arr2_get acc (int i) j = Inr c"
  by (simp add: arr2_get_def)

lemma arr2_set_ok:
  "i < length acc \<Longrightarrow> \<exists>acc'. arr2_set acc (int i) j v = Inr acc' \<and> length acc' = length acc"
  by (simp add: arr2_set_def)

lemma mm_loop_k_fail:
  assumes A: "Matrix_m A = Inr k" and B: "Matrix_m B = Inr p" and j: "j < p"
    and nk: "Matrix_n B < k" and i: "i < Matrix_n A"
  shows "kk \<le> Matrix_n B \<Longrightarrow> i < length acc \<Longrightarrow>
    mm_loop_k A B i j kk acc = Inl IndexOutOfBounds"
proof (induction "Matrix_n B - kk" arbitrary: kk acc)
  case 0
  then have kk: "kk = Matrix_n B" by simp
  with nk have lt: "kk < k" by simp
  from arr2_get_ok [OF 0(3)] obtain old where old: "arr2_get acc (int i) (int j) = Inr old"
    by blast
  from Matrix_getAt_ok [OF i A lt] obtain c where c: "Matrix_getAt A (int i) (int kk) = Inr c"
    by blast
  from kk have "Matrix_getAt B (int kk) (int j) = Inl IndexOutOfBounds"
    by (simp add: Matrix_getAt_row_out)
  with lt old c show ?case
    by (subst mm_loop_k.simps) (simp add: A lift2_def)
next
  case (Suc d)
  then have kk: "kk < Matrix_n B" by simp
  with nk have lt: "kk < k" by simp
  from arr2_get_ok [OF Suc(4)] obtain old where old: "arr2_get acc (int i) (int j) = Inr old"
    by blast
  from Matrix_getAt_ok [OF i A lt] obtain c where c: "Matrix_getAt A (int i) (int kk) = Inr c"
    by blast
  from Matrix_getAt_ok [OF kk B j] obtain c' where c': "Matrix_getAt B (int kk) (int j) = Inr c'"
    by blast
  from arr2_set_ok [OF Suc(4)] obtain acc'
    where acc': "arr2_set acc (int i) (int j) (js_add old (js_mul c c')) = Inr acc'"
      and len: "length acc' = length acc"
    by blast
  have "mm_loop_k A B i j (Suc kk) acc' = Inl IndexOutOfBounds"
    using Suc.hyps(2) kk Suc.prems len by (intro Suc.hyps(1)) simp_all
  with lt old c c' acc' show ?case
    by (subst mm_loop_k.simps) (simp add: A lift2_def)
qed

lemma matrixMultiplication_fail:
  assumes A: "Matrix_m A = Inr k" and B: "Matrix_m B = Inr p" and p: "0 < p"
    and nk: "Matrix_n B < k"
  shows "Matrix_matrixMultiplication A B = Inl IndexOutOfBounds"
proof -
  from A have n: "0 < Matrix_n A"
    by (cases "matrix A") (simp_all add: Matrix_m_def Matrix_n_def)
  let ?m = "replicate (Matrix_n A) (replicate p (Num d_zero))"
  from n have "mm_loop_k A B 0 0 0 ?m = Inl IndexOutOfBounds"
    by (intro mm_loop_k_fail [OF A B p nk]) simp_all
  with p have "mm_loop_j A B 0 0 ?m = Inl IndexOutOfBounds"
    by (subst mm_loop_j.simps) (simp add: B)
  with n have "mm_loop_i A B 0 ?m = Inl IndexOutOfBounds"
    by (subst mm_loop_i.simps) simp
  with n show ?thesis
    by (simp add: Matrix_matrixMultiplication_def B)
qed


text \<open>
  Claim C3: for every matrix \<open>A\<close> of \<open>k\<close> columns and every matrix \<open>B\<close> of \<open>k\<close> rows
  and \<open>p\<close> columns, \<^verbatim>\<open>A.matrixMultiplication(B)\<close> returns the matrix of \<open>A.n\<close> rows and
  \<open>p\<close> columns whose cell \<open>(i, j)\<close> is
  \<open>(\<dots>((0 + A[i][0] * B[0][j]) + A[i][1] * B[1][j]) + \<dots>) + A[i][k-1] * B[k-1][j]\<close>:
  the products are added to 0 one after the other, in increasing \<open>k'\<close> (a fold from
  the left; on doubles the sum depends on this order). \<open>A[i][k']\<close> and \<open>B[k'][j]\<close> are
  the elements as \<^verbatim>\<open>getAt\<close> reads them, and \<^verbatim>\<open>+\<close> and \<^verbatim>\<open>*\<close> the operators of the
  language on doubles. That \<open>A.m\<close> and \<open>B.m\<close> have a value says that both matrices
  have a first row.
\<close>

theorem Matrix_matrixMultiplication_correct:
  assumes "Matrix_m A = Inr k" and "Matrix_n B = k" and "Matrix_m B = Inr p"
  shows "Matrix_matrixMultiplication A B
      = Inr (Matrix (map (\<lambda>i. map (\<lambda>j.
               foldl (\<lambda>s k'. js_add s (js_mul (arr_get (matrix A ! i) (int k'))
                                                (arr_get (matrix B ! k') (int j))))
                     (Num d_zero) [0..<k]) [0..<p]) [0..<Matrix_n A]))"
proof -
  from assms(2) have "k \<le> Matrix_n B" by simp
  from matrixMultiplication_closed [OF assms(1) assms(3) this] show ?thesis
    by (simp only: cell_sum_def)
qed

text \<open>
  The instance of the claim: the product of \<^verbatim>\<open>[[1, 2], [3, 4]]\<close> and
  \<^verbatim>\<open>[[5, 6], [7, 8]]\<close> is \<^verbatim>\<open>[[19, 22], [43, 50]]\<close>.
\<close>

theorem Matrix_matrixMultiplication_correct_witness:
  "Matrix_m (Matrix [[Num (d_of_nat 1), Num (d_of_nat 2)], [Num (d_of_nat 3), Num (d_of_nat 4)]]) = Inr 2
   \<and> Matrix_n (Matrix [[Num (d_of_nat 5), Num (d_of_nat 6)], [Num (d_of_nat 7), Num (d_of_nat 8)]]) = 2
   \<and> Matrix_m (Matrix [[Num (d_of_nat 5), Num (d_of_nat 6)], [Num (d_of_nat 7), Num (d_of_nat 8)]]) = Inr 2
   \<and> Matrix_matrixMultiplication (Matrix [[Num (d_of_nat 1), Num (d_of_nat 2)], [Num (d_of_nat 3), Num (d_of_nat 4)]])
        (Matrix [[Num (d_of_nat 5), Num (d_of_nat 6)], [Num (d_of_nat 7), Num (d_of_nat 8)]])
     = Inr (Matrix [[Num (d_of_nat 19), Num (d_of_nat 22)], [Num (d_of_nat 43), Num (d_of_nat 50)]])"
proof -
  let ?A = "Matrix [[Num (d_of_nat 1), Num (d_of_nat 2)], [Num (d_of_nat 3), Num (d_of_nat 4)]]"
  let ?B = "Matrix [[Num (d_of_nat 5), Num (d_of_nat 6)], [Num (d_of_nat 7), Num (d_of_nat 8)]]"
  have a: "Matrix_m ?A = Inr 2" by (simp add: Matrix_m_def)
  have b: "Matrix_n ?B = 2" by (simp add: Matrix_n_def)
  have c: "Matrix_m ?B = Inr 2" by (simp add: Matrix_m_def)
  have "Matrix_matrixMultiplication ?A ?B
      = Inr (Matrix (map (\<lambda>i. map (\<lambda>j.
               foldl (\<lambda>s k'. js_add s (js_mul (arr_get (matrix ?A ! i) (int k'))
                                                (arr_get (matrix ?B ! k') (int j))))
                     (Num d_zero) [0..<2]) [0..<2]) [0..<Matrix_n ?A]))"
    by (rule Matrix_matrixMultiplication_correct [OF a b c])
  moreover have "(map (\<lambda>i. map (\<lambda>j.
               foldl (\<lambda>s k'. js_add s (js_mul (arr_get (matrix ?A ! i) (int k'))
                                                (arr_get (matrix ?B ! k') (int j))))
                     (Num d_zero) [0..<2]) [0..<2]) [0..<Matrix_n ?A])
      = [[Num (d_of_nat 19), Num (d_of_nat 22)], [Num (d_of_nat 43), Num (d_of_nat 50)]]"
    by code_simp
  ultimately have r: "Matrix_matrixMultiplication ?A ?B = Inr (Matrix [[Num (d_of_nat 19), Num (d_of_nat 22)], [Num (d_of_nat 43), Num (d_of_nat 50)]])"
    by (simp only:)
  from a b c r show ?thesis by (simp only: simp_thms)
qed

text \<open>
  Claim C9, as the code has it. When \<open>A\<close> has more columns than \<open>B\<close> has rows, and \<open>B\<close>
  has at least one row (its number of columns can be read) and at least one column,
  \<^verbatim>\<open>A.matrixMultiplication(B)\<close> fails with the error of the bounds check. When \<open>A\<close>
  has fewer columns than \<open>B\<close> has rows, the call succeeds, for all matrices \<open>A\<close> and
  \<open>B\<close>, and returns the matrix of \<open>A.n\<close> rows and \<open>B.m\<close> columns whose cell \<open>(i, j)\<close>
  is the sum of the products \<open>A[i][l] * B[l][j]\<close> for the \<open>l\<close> below \<open>A.m\<close> only, added
  to 0 one after the other in increasing \<open>l\<close>.
\<close>

theorem Matrix_matrixMultiplication_inner_dimension:
  "(Matrix_m A = Inr k \<and> Matrix_m B = Inr p \<and> 0 < p \<and> Matrix_n B < k \<longrightarrow>
      Matrix_matrixMultiplication A B = Inl IndexOutOfBounds)
   \<and> (Matrix_m A' = Inr k' \<and> k' < Matrix_n B' \<and> Matrix_m B' = Inr p' \<longrightarrow>
      Matrix_matrixMultiplication A' B'
        = Inr (Matrix (map (\<lambda>i. map (\<lambda>j.
               foldl (\<lambda>s k'. js_add s (js_mul (arr_get (matrix A' ! i) (int k'))
                                                (arr_get (matrix B' ! k') (int j))))
                     (Num d_zero) [0..<k']) [0..<p']) [0..<Matrix_n A'])))"
proof (intro conjI impI)
  assume "Matrix_m A = Inr k \<and> Matrix_m B = Inr p \<and> 0 < p \<and> Matrix_n B < k"
  then show "Matrix_matrixMultiplication A B = Inl IndexOutOfBounds"
    by (intro matrixMultiplication_fail [of A k B p]) simp_all
next
  assume h: "Matrix_m A' = Inr k' \<and> k' < Matrix_n B' \<and> Matrix_m B' = Inr p'"
  then have "Matrix_m A' = Inr k'" "Matrix_m B' = Inr p'" "k' \<le> Matrix_n B'"
    by simp_all
  from matrixMultiplication_closed [OF this]
  show "Matrix_matrixMultiplication A' B'
        = Inr (Matrix (map (\<lambda>i. map (\<lambda>j.
               foldl (\<lambda>s k'. js_add s (js_mul (arr_get (matrix A' ! i) (int k'))
                                                (arr_get (matrix B' ! k') (int j))))
                     (Num d_zero) [0..<k']) [0..<p']) [0..<Matrix_n A']))"
    by (simp only: cell_sum_def)
qed

text \<open>
  Two instances: \<^verbatim>\<open>[[1, 2, 3]]\<close> times \<^verbatim>\<open>[[1], [2]]\<close> fails with the error of the
  bounds check, and \<^verbatim>\<open>[[1, 2]]\<close> times \<^verbatim>\<open>[[1], [2], [7]]\<close> is \<^verbatim>\<open>[[5]]\<close>.
\<close>

theorem Matrix_matrixMultiplication_inner_dimension_witness:
  "Matrix_m (Matrix [[Num (d_of_nat 1), Num (d_of_nat 2), Num (d_of_nat 3)]]) = Inr 3
   \<and> Matrix_m (Matrix [[Num (d_of_nat 1)], [Num (d_of_nat 2)]]) = Inr 1
   \<and> (0 :: nat) < 1
   \<and> Matrix_n (Matrix [[Num (d_of_nat 1)], [Num (d_of_nat 2)]]) < 3
   \<and> Matrix_matrixMultiplication (Matrix [[Num (d_of_nat 1), Num (d_of_nat 2), Num (d_of_nat 3)]])
        (Matrix [[Num (d_of_nat 1)], [Num (d_of_nat 2)]])
       = Inl IndexOutOfBounds
   \<and> Matrix_m (Matrix [[Num (d_of_nat 1), Num (d_of_nat 2)]]) = Inr 2
   \<and> 2 < Matrix_n (Matrix [[Num (d_of_nat 1)], [Num (d_of_nat 2)], [Num (d_of_nat 7)]])
   \<and> Matrix_m (Matrix [[Num (d_of_nat 1)], [Num (d_of_nat 2)], [Num (d_of_nat 7)]]) = Inr 1
   \<and> Matrix_matrixMultiplication (Matrix [[Num (d_of_nat 1), Num (d_of_nat 2)]])
        (Matrix [[Num (d_of_nat 1)], [Num (d_of_nat 2)], [Num (d_of_nat 7)]])
       = Inr (Matrix [[Num (d_of_nat 5)]])"
proof -
  let ?A = "Matrix [[Num (d_of_nat 1), Num (d_of_nat 2), Num (d_of_nat 3)]]"
  let ?B = "Matrix [[Num (d_of_nat 1)], [Num (d_of_nat 2)]]"
  let ?A' = "Matrix [[Num (d_of_nat 1), Num (d_of_nat 2)]]"
  let ?B' = "Matrix [[Num (d_of_nat 1)], [Num (d_of_nat 2)], [Num (d_of_nat 7)]]"
  have a: "Matrix_m ?A = Inr 3 \<and> Matrix_m ?B = Inr 1 \<and> (0::nat) < 1 \<and> Matrix_n ?B < 3"
    by (simp add: Matrix_m_def Matrix_n_def)
  have b: "Matrix_m ?A' = Inr 2 \<and> 2 < Matrix_n ?B' \<and> Matrix_m ?B' = Inr 1"
    by (simp add: Matrix_m_def Matrix_n_def)
  note t = Matrix_matrixMultiplication_inner_dimension [of ?A 3 ?B 1 ?A' 2 ?B' 1]
  from t [THEN conjunct1, rule_format, OF a]
  have r1: "Matrix_matrixMultiplication ?A ?B = Inl IndexOutOfBounds" .
  from t [THEN conjunct2, rule_format, OF b]
  have "Matrix_matrixMultiplication ?A' ?B'
        = Inr (Matrix (map (\<lambda>i. map (\<lambda>j.
               foldl (\<lambda>s k'. js_add s (js_mul (arr_get (matrix ?A' ! i) (int k'))
                                                (arr_get (matrix ?B' ! k') (int j))))
                     (Num d_zero) [0..<2]) [0..<1]) [0..<Matrix_n ?A']))" .
  moreover have "(map (\<lambda>i. map (\<lambda>j.
               foldl (\<lambda>s k'. js_add s (js_mul (arr_get (matrix ?A' ! i) (int k'))
                                                (arr_get (matrix ?B' ! k') (int j))))
                     (Num d_zero) [0..<2]) [0..<1]) [0..<Matrix_n ?A'])
      = [[Num (d_of_nat 5)]]"
    by code_simp
  ultimately have r2: "Matrix_matrixMultiplication ?A' ?B' = Inr (Matrix [[Num (d_of_nat 5)]])"
    by (simp only:)
  from a b r1 r2 show ?thesis by (simp only: simp_thms)
qed

text \<open>
  The claim as stated fails for an argument without columns, and for one without
  rows. For \<open>A\<close> the matrix \<^verbatim>\<open>[[1, 2, 3]]\<close>, of three columns, and \<open>B\<close> the matrix
  \<^verbatim>\<open>[[], []]\<close>, of two rows, the loop over the columns of \<open>B\<close> never runs and the call
  returns \<^verbatim>\<open>[[]]\<close>. For \<open>B\<close> the matrix \<^verbatim>\<open>new Matrix(0)\<close>, of no rows, the call fails
  when it reads \<open>B.m\<close>, with a \<^verbatim>\<open>TypeError\<close> and not with the error of the bounds
  check.
\<close>

theorem Matrix_matrixMultiplication_zero_columns_counterexample:
  "Matrix_constructor (MArray [[Num (d_of_nat 1), Num (d_of_nat 2), Num (d_of_nat 3)]]) None None
     = Inr (Matrix [[Num (d_of_nat 1), Num (d_of_nat 2), Num (d_of_nat 3)]])
   \<and> Matrix_constructor (MArray [[], []]) None None = Inr (Matrix [[], []])
   \<and> Matrix_m (Matrix [[Num (d_of_nat 1), Num (d_of_nat 2), Num (d_of_nat 3)]]) = Inr 3
   \<and> Matrix_n (Matrix [[], []]) = 2
   \<and> Matrix_matrixMultiplication (Matrix [[Num (d_of_nat 1), Num (d_of_nat 2), Num (d_of_nat 3)]]) (Matrix [[], []])
       = Inr (Matrix [[]])
   \<and> Matrix_constructor (MNumber (d_of_nat 0)) None None = Inr (Matrix [])
   \<and> Matrix_n (Matrix []) = 0
   \<and> Matrix_matrixMultiplication (Matrix [[Num (d_of_nat 1), Num (d_of_nat 2), Num (d_of_nat 3)]]) (Matrix [])
       = Inl TypeError"
  by code_simp

text \<open>
  The operations round and overflow as the doubles do: the product of
  \<^verbatim>\<open>[[2**600, 2**600]]\<close> and \<^verbatim>\<open>[[2**600], [-(2**600)]]\<close> is \<^verbatim>\<open>[[NaN]]\<close>, the sum of
  \<^verbatim>\<open>Infinity\<close> and \<^verbatim>\<open>-Infinity\<close>.
\<close>

lemma matrixMultiplication_overflow:
  "Matrix_matrixMultiplication (Matrix [[Num (Finite False 1 600), Num (Finite False 1 600)]])
      (Matrix [[Num (Finite False 1 600)], [Num (Finite True 1 600)]])
     = Inr (Matrix [[Num NaN]])"
  by code_simp

section \<open>The identity matrix\<close>

text \<open>
  \<^verbatim>\<open>identity(n)\<close> builds the matrix of zeros, copies its rows with \<^verbatim>\<open>to2dArray\<close> and
  writes the ones of the diagonal, one after the other. For \<open>n = 1\<close> the copy of the
  row \<^verbatim>\<open>[0]\<close> is \<^verbatim>\<open>new Array(0)\<close>, the empty array, and the write of the one makes it
  \<^verbatim>\<open>[1]\<close>.
\<close>

lemma mapM_replicate: "f x = Inr y \<Longrightarrow> mapM f (replicate n x) = Inr (replicate n y)"
  by (induction n) simp_all

lemma new_Array_spread_zeros:
  assumes "2 \<le> m"
  shows "new_Array_spread (replicate m (Num d_zero)) = Inr (replicate m (Num d_zero))"
proof -
  from assms obtain m' where "m = Suc (Suc m')"
    by (metis add_2_eq_Suc le_Suc_ex)
  then show ?thesis
    by (simp add: read_slot_def)
qed

lemma forEach_checkBounds_ok:
  "\<forall>p\<in>set indices. Matrix_checkBounds M (fst p) (snd p) = Inr () \<Longrightarrow>
   forEach_checkBounds M indices = Inr ()"
  by (induction indices) auto

lemma identity_cell_update:
  assumes "ii < m"
  shows "(map (\<lambda>i. map (\<lambda>j. Num (if i = j \<and> i < ii then d_one else d_zero)) [0..<m]) [0..<m])
           [ii := (map (\<lambda>i. map (\<lambda>j. Num (if i = j \<and> i < ii then d_one else d_zero)) [0..<m]) [0..<m] ! ii)
                    [ii := Num d_one]]
         = map (\<lambda>i. map (\<lambda>j. Num (if i = j \<and> i < Suc ii then d_one else d_zero)) [0..<m]) [0..<m]"
  using assms by (auto simp add: list_eq_iff_nth_eq nth_list_update)

lemma forEach_set_diagonal:
  "ii \<le> m \<Longrightarrow>
   forEach_set (replicate (m - ii) d_one) ii (map (\<lambda>i. (int i, int i)) [0..<m])
      (map (\<lambda>i. map (\<lambda>j. Num (if i = j \<and> i < ii then d_one else d_zero)) [0..<m]) [0..<m])
    = Inr (map (\<lambda>i. map (\<lambda>j. Num (if i = j then d_one else d_zero)) [0..<m]) [0..<m])"
proof (induction "m - ii" arbitrary: ii)
  case 0
  then show ?case by simp
next
  case (Suc d)
  then have ii: "ii < m" by simp
  then have "m - ii = Suc (m - Suc ii)" by simp
  then have v: "replicate (m - ii) d_one = d_one # replicate (m - Suc ii) d_one"
    by (simp only: replicate_Suc)
  let ?st = "map (\<lambda>i. map (\<lambda>j. Num (if i = j \<and> i < ii then d_one else d_zero)) [0..<m]) [0..<m]"
  from ii have len1: "ii < length ?st" by simp
  from ii have len2: "ii < length (?st ! ii)" by simp
  have "arr2_set ?st (int ii) (int ii) (Num d_one) = Inr (?st[ii := (?st ! ii)[ii := Num d_one]])"
    using len1 len2 by (rule arr2_set_nat)
  then have set: "arr2_set ?st (int ii) (int ii) (Num d_one)
      = Inr (map (\<lambda>i. map (\<lambda>j. Num (if i = j \<and> i < Suc ii then d_one else d_zero)) [0..<m]) [0..<m])"
    by (simp only: identity_cell_update [OF ii])
  have IH: "forEach_set (replicate (m - Suc ii) d_one) (Suc ii) (map (\<lambda>i. (int i, int i)) [0..<m])
      (map (\<lambda>i. map (\<lambda>j. Num (if i = j \<and> i < Suc ii then d_one else d_zero)) [0..<m]) [0..<m])
    = Inr (map (\<lambda>i. map (\<lambda>j. Num (if i = j then d_one else d_zero)) [0..<m]) [0..<m])"
    using Suc.hyps(2) ii by (intro Suc.hyps(1)) simp_all
  from ii have idx: "ii < length (map (\<lambda>i. (int i, int i)) [0..<m])"
      "map (\<lambda>i. (int i, int i)) [0..<m] ! ii = (int ii, int ii)"
    by simp_all
  show ?case
    by (simp only: v forEach_set.simps idx if_True prod.case set sum.case IH)
qed


lemma new_Array_zero: "new_Array d_zero = Inr 0"
  by (simp add: new_Array_def d_zero_def)

lemma Matrix_identity_closed:
  assumes "0 < m" and "m < 2 ^ 32"
  shows "Matrix_identity (d_of_nat m)
    = Inr (Matrix (map (\<lambda>i. map (\<lambda>j. Num (if i = j then d_one else d_zero)) [0..<m]) [0..<m]))"
proof (cases "m = 1")
  case True
  have "new_Array (d_of_nat 1) = Inr 1"
    by (rule new_Array_of_nat) simp
  with True show ?thesis
    by (simp add: Matrix_identity_def new_Array_zero Matrix_setMultiple_def Matrix_checkBounds_def
        Matrix_n_def Matrix_m_def Matrix_to2dArray_def arr2_set_def arr_set_def
        Matrix_assertValidity_def)
next
  case False
  with assms have m2: "2 \<le> m" by simp
  note na = new_Array_of_nat [OF assms(2)]
  let ?Z = "Matrix (replicate m (replicate m (Num d_zero)))"
  let ?I = "map (\<lambda>i. map (\<lambda>j. Num (if i = j then d_one else d_zero)) [0..<m]) [0..<m]"
  from assms have ctor: "Matrix_constructor (MNumber (d_of_nat m)) (Some d_zero) None = Inr ?Z"
    by (simp add: na)
  from assms have "Matrix_m ?Z = Inr m"
    by (cases m) (simp_all add: Matrix_m_def)
  then have chk: "forEach_checkBounds ?Z (map (\<lambda>i. (int i, int i)) [0..<m]) = Inr ()"
    by (intro forEach_checkBounds_ok) (simp add: Matrix_checkBounds_def Matrix_n_def)
  have copy: "Matrix_to2dArray ?Z = Inr (replicate m (replicate m (Num d_zero)))"
    by (simp add: Matrix_to2dArray_def
        mapM_replicate [where f = new_Array_spread, OF new_Array_spread_zeros [OF m2]])
  have init: "replicate m (replicate m (Num d_zero))
      = map (\<lambda>i. map (\<lambda>j. Num (if i = j \<and> i < 0 then d_one else d_zero)) [0..<m]) [0..<m]"
    by (simp add: map_replicate_const)
  have set: "forEach_set (replicate m d_one) 0 (map (\<lambda>i. (int i, int i)) [0..<m])
      (replicate m (replicate m (Num d_zero))) = Inr ?I"
    unfolding init using forEach_set_diagonal [of 0 m] by simp
  have valid: "Matrix_constructor (MArray ?I) None None = Inr (Matrix ?I)"
    using assms by (intro Matrix_constructor_MArray [where p = m]) auto
  show ?thesis
    by (simp only: Matrix_identity_def ctor sum.case na Matrix_setMultiple_def
        chk copy set valid)
qed

text \<open>
  The cell \<open>(i, j)\<close> of the product of a row of finite numbers \<open>x\<close> with the identity
  matrix: the sum is \<open>+0\<close> up to the column \<open>j\<close>, then \<open>x j\<close> (or \<open>+0\<close> when \<open>x j\<close> is a
  zero), which the zeros added after it leave as it is.
\<close>

lemma d_add_zero_zero: "d_add d_zero (Finite s 0 0) = d_zero"
  by (simp add: d_zero_def)

lemma identity_column_sum:
  assumes fin: "\<forall>l<m. finite_double (x l)" and j: "j < m"
  shows "n \<le> m \<Longrightarrow>
    foldl (\<lambda>s l. js_add s (js_mul (Num (x l)) (Num (if l = j then d_one else d_zero))))
          (Num d_zero) [0..<n]
      = Num (if j < n then plus_zero (x j) else d_zero)"
proof (induction n)
  case 0
  then show ?case by simp
next
  case (Suc n)
  then have n: "n < m" by simp
  with fin have f: "finite_double (x n)" by simp
  from fin j have fj: "finite_double (x j)" by simp
  from d_mul_zero [OF f] obtain s where z: "d_mul (x n) d_zero = Finite s 0 0" by blast
  let ?F = "\<lambda>s l. js_add s (js_mul (Num (x l)) (Num (if l = j then d_one else d_zero)))"
  from Suc have IH: "foldl ?F (Num d_zero) [0..<n] = Num (if j < n then plus_zero (x j) else d_zero)"
    by simp
  have "foldl ?F (Num d_zero) [0..<Suc n] = ?F (foldl ?F (Num d_zero) [0..<n]) n"
    by simp
  then have step: "foldl ?F (Num d_zero) [0..<Suc n]
      = js_add (Num (if j < n then plus_zero (x j) else d_zero))
               (js_mul (Num (x n)) (Num (if n = j then d_one else d_zero)))"
    by (simp only: IH)
  consider "n < j" | "n = j" | "j < n" by linarith
  then show ?case
  proof cases
    case 1
    then show ?thesis
      unfolding step by (simp add: js_add_def js_mul_def z d_add_zero_zero)
  next
    case 2
    then show ?thesis
      unfolding step by (simp add: js_add_def js_mul_def d_mul_one [OF fj] d_add_zero_left [OF fj])
  next
    case 3
    then show ?thesis
      unfolding step by (simp add: js_add_def js_mul_def z d_add_zero_right [OF fj])
  qed
qed

lemma times_identity_cell:
  assumes r: "length r = m" and fin: "\<forall>c\<in>set r. finite_number c" and j: "j < m"
  shows "foldl (\<lambda>s l. js_add s (js_mul (arr_get r (int l))
            (arr_get ((map (\<lambda>i. map (\<lambda>j. Num (if i = j then d_one else d_zero)) [0..<m]) [0..<m]) ! l) (int j))))
          (Num d_zero) [0..<m]
      = Num (plus_zero (to_number (r ! j)))"
proof -
  have c: "finite_number (r ! l)" if "l < m" for l
    using fin r that by simp
  have x: "\<forall>l<m. finite_double (to_number (r ! l))"
  proof (intro allI impI)
    fix l assume "l < m"
    from c [OF this] show "finite_double (to_number (r ! l))"
      by (cases "r ! l") simp_all
  qed
  have rd: "arr_get r (int l) = Num (to_number (r ! l))" if "l < m" for l
    using c [OF that] r that by (cases "r ! l") (simp_all add: arr_get_def read_slot_def)
  have id: "arr_get ((map (\<lambda>i. map (\<lambda>j. Num (if i = j then d_one else d_zero)) [0..<m]) [0..<m]) ! l) (int j) = Num (if l = j then d_one else d_zero)"
    if "l < m" for l
    using that j by (simp add: arr_get_def read_slot_def)
  have "foldl (\<lambda>s l. js_add s (js_mul (arr_get r (int l))
            (arr_get ((map (\<lambda>i. map (\<lambda>j. Num (if i = j then d_one else d_zero)) [0..<m]) [0..<m]) ! l) (int j))))
          (Num d_zero) [0..<m]
      = foldl (\<lambda>s l. js_add s (js_mul (Num (to_number (r ! l)))
                                        (Num (if l = j then d_one else d_zero))))
          (Num d_zero) [0..<m]"
  proof (rule foldl_cong [OF refl refl])
    fix a l assume "l \<in> set [0..<m]"
    then have l: "l < m" by simp
    show "js_add a (js_mul (arr_get r (int l))
            (arr_get (map (\<lambda>i. map (\<lambda>j. Num (if i = j then d_one else d_zero)) [0..<m]) [0..<m] ! l)
               (int j)))
        = js_add a (js_mul (Num (to_number (r ! l))) (Num (if l = j then d_one else d_zero)))"
      by (simp only: rd [OF l] id [OF l])
  qed
  also have "\<dots> = Num (plus_zero (to_number (r ! j)))"
    using identity_column_sum [OF x j, of m] j by simp
  finally show ?thesis .
qed

lemma plus_zero_cell:
  "finite_number c \<Longrightarrow> c \<noteq> Num (Finite True 0 0) \<Longrightarrow> Num (plus_zero (to_number c)) = c"
  by (cases c) (simp_all add: plus_zero_def)

text \<open>
  Claim C5, as the code has it: for every matrix \<open>M\<close> whose rows all have \<open>M.m\<close>
  elements, with \<open>M.m\<close> at least 1 (and below \<open>2^32\<close>, as the length of every array
  is), each element a finite number, \<^verbatim>\<open>identity(M.m)\<close> is the matrix of \<open>M.m\<close> rows
  and \<open>M.m\<close> columns with 1 on the diagonal and 0 elsewhere, and
  \<^verbatim>\<open>M.matrixMultiplication(identity(M.m))\<close> is \<open>M\<close> with each element \<open>-0\<close> replaced
  by \<open>+0\<close>; it is \<open>M\<close> when no element of \<open>M\<close> is \<open>-0\<close>.
\<close>

theorem Matrix_identity_correct:
  assumes "Matrix_m M = Inr m" and "0 < m" and "m < 2 ^ 32"
    and "\<forall>r\<in>set (matrix M). length r = m \<and> (\<forall>c\<in>set r. finite_number c)"
  shows "Matrix_identity (d_of_nat m)
      = Inr (Matrix (map (\<lambda>i. map (\<lambda>j. Num (if i = j then d_one else d_zero)) [0..<m]) [0..<m]))
    \<and> Matrix_matrixMultiplication M
        (Matrix (map (\<lambda>i. map (\<lambda>j. Num (if i = j then d_one else d_zero)) [0..<m]) [0..<m]))
      = Inr (Matrix (map (map (\<lambda>c. Num (plus_zero (to_number c)))) (matrix M)))
    \<and> ((\<forall>r\<in>set (matrix M). Num (Finite True 0 0) \<notin> set r) \<longrightarrow>
         Matrix_matrixMultiplication M
           (Matrix (map (\<lambda>i. map (\<lambda>j. Num (if i = j then d_one else d_zero)) [0..<m]) [0..<m]))
         = Inr M)"
proof -
  let ?I = "Matrix (map (\<lambda>i. map (\<lambda>j. Num (if i = j then d_one else d_zero)) [0..<m]) [0..<m])"
  from assms(2) have Im: "Matrix_m ?I = Inr m"
    by (simp add: Matrix_m_def upt_conv_Cons)
  have In: "m \<le> Matrix_n ?I"
    by (simp add: Matrix_n_def)
  have rows: "map (\<lambda>i. map (\<lambda>j. cell_sum M ?I i j (Num d_zero) [0..<m]) [0..<m]) [0..<Matrix_n M]
      = map (map (\<lambda>c. Num (plus_zero (to_number c)))) (matrix M)"
  proof (rule nth_equalityI)
    show "length (map (\<lambda>i. map (\<lambda>j. cell_sum M ?I i j (Num d_zero) [0..<m]) [0..<m])
                     [0..<Matrix_n M])
        = length (map (map (\<lambda>c. Num (plus_zero (to_number c)))) (matrix M))"
      by (simp add: Matrix_n_def)
  next
    fix i
    assume "i < length (map (\<lambda>i. map (\<lambda>j. cell_sum M ?I i j (Num d_zero) [0..<m]) [0..<m])
                     [0..<Matrix_n M])"
    then have i: "i < length (matrix M)" by (simp add: Matrix_n_def)
    then have mem: "matrix M ! i \<in> set (matrix M)" by (rule nth_mem)
    with assms(4) have len: "length (matrix M ! i) = m"
      and fin: "\<forall>c\<in>set (matrix M ! i). finite_number c"
      by blast+
    have "map (\<lambda>j. cell_sum M ?I i j (Num d_zero) [0..<m]) [0..<m]
        = map (\<lambda>c. Num (plus_zero (to_number c))) (matrix M ! i)"
    proof (rule nth_equalityI)
      show "length (map (\<lambda>j. cell_sum M ?I i j (Num d_zero) [0..<m]) [0..<m])
          = length (map (\<lambda>c. Num (plus_zero (to_number c))) (matrix M ! i))"
        by (simp add: len)
    next
      fix j
      assume "j < length (map (\<lambda>j. cell_sum M ?I i j (Num d_zero) [0..<m]) [0..<m])"
      then have j: "j < m" by simp
      from times_identity_cell [OF len fin j] j len
      show "map (\<lambda>j. cell_sum M ?I i j (Num d_zero) [0..<m]) [0..<m] ! j
          = map (\<lambda>c. Num (plus_zero (to_number c))) (matrix M ! i) ! j"
        by (simp add: cell_sum_def)
    qed
    with i show "map (\<lambda>i. map (\<lambda>j. cell_sum M ?I i j (Num d_zero) [0..<m]) [0..<m])
                     [0..<Matrix_n M] ! i
        = map (map (\<lambda>c. Num (plus_zero (to_number c)))) (matrix M) ! i"
      by (simp add: Matrix_n_def)
  qed
  have prod: "Matrix_matrixMultiplication M ?I
      = Inr (Matrix (map (map (\<lambda>c. Num (plus_zero (to_number c)))) (matrix M)))"
    by (simp only: matrixMultiplication_closed [OF assms(1) Im In] rows)
  have same: "Matrix_matrixMultiplication M ?I = Inr M"
    if nz: "\<forall>r\<in>set (matrix M). Num (Finite True 0 0) \<notin> set r"
  proof -
    have "map (map (\<lambda>c. Num (plus_zero (to_number c)))) (matrix M) = matrix M"
    proof (rule map_idI)
      fix r assume r: "r \<in> set (matrix M)"
      show "map (\<lambda>c. Num (plus_zero (to_number c))) r = r"
      proof (rule map_idI)
        fix c assume c: "c \<in> set r"
        with assms(4) r have "finite_number c" by blast
        moreover from nz r c have "c \<noteq> Num (Finite True 0 0)" by blast
        ultimately show "Num (plus_zero (to_number c)) = c" by (rule plus_zero_cell)
      qed
    qed
    with prod show ?thesis by simp
  qed
  from Matrix_identity_closed [OF assms(2,3)] prod same show ?thesis
    by blast
qed

text \<open>
  An instance: for \<open>M\<close> the matrix \<^verbatim>\<open>[[1, 2], [3, 4]]\<close>, \<^verbatim>\<open>identity(2)\<close> is
  \<^verbatim>\<open>[[1, 0], [0, 1]]\<close> and the product is \<open>M\<close>.
\<close>

theorem Matrix_identity_correct_witness:
  "Matrix_m (Matrix [[Num (d_of_nat 1), Num (d_of_nat 2)], [Num (d_of_nat 3), Num (d_of_nat 4)]]) = Inr 2
   \<and> (0 :: nat) < 2 \<and> (2 :: nat) < 2 ^ 32
   \<and> list_all (\<lambda>r. length r = 2 \<and> list_all finite_number r)
         (matrix (Matrix [[Num (d_of_nat 1), Num (d_of_nat 2)], [Num (d_of_nat 3), Num (d_of_nat 4)]]))
   \<and> list_all (\<lambda>r. Num (Finite True 0 0) \<notin> set r)
         (matrix (Matrix [[Num (d_of_nat 1), Num (d_of_nat 2)], [Num (d_of_nat 3), Num (d_of_nat 4)]]))
   \<and> Matrix_identity (d_of_nat 2) = Inr (Matrix [[Num d_one, Num d_zero], [Num d_zero, Num d_one]])
   \<and> Matrix_matrixMultiplication (Matrix [[Num (d_of_nat 1), Num (d_of_nat 2)], [Num (d_of_nat 3), Num (d_of_nat 4)]])
        (Matrix [[Num d_one, Num d_zero], [Num d_zero, Num d_one]])
     = Inr (Matrix [[Num (d_of_nat 1), Num (d_of_nat 2)], [Num (d_of_nat 3), Num (d_of_nat 4)]])"
proof -
  let ?M = "Matrix [[Num (d_of_nat 1), Num (d_of_nat 2)], [Num (d_of_nat 3), Num (d_of_nat 4)]]"
  have a: "Matrix_m ?M = Inr 2"
    by (simp add: Matrix_m_def)
  have b: "(0 :: nat) < 2" by simp
  have c: "(2 :: nat) < 2 ^ 32" by simp
  have d: "\<forall>r\<in>set (matrix ?M). length r = 2 \<and> (\<forall>c\<in>set r. finite_number c)"
    by code_simp
  have e: "\<forall>r\<in>set (matrix ?M). Num (Finite True 0 0) \<notin> set r"
    by code_simp
  have i: "map (\<lambda>i. map (\<lambda>j. Num (if i = j then d_one else d_zero)) [0..<2]) [0..<2]
      = [[Num d_one, Num d_zero], [Num d_zero, Num d_one]]"
    by (simp add: upt_rec)
  note t = Matrix_identity_correct [OF a b c d]
  from t [THEN conjunct1]
  have r1: "Matrix_identity (d_of_nat 2) = Inr (Matrix [[Num d_one, Num d_zero], [Num d_zero, Num d_one]])"
    by (simp only: i)
  from t [THEN conjunct2, THEN conjunct2, THEN mp, OF e]
  have r2: "Matrix_matrixMultiplication ?M (Matrix [[Num d_one, Num d_zero], [Num d_zero, Num d_one]]) = Inr ?M"
    by (simp only: i)
  from d have d': "list_all (\<lambda>r. length r = 2 \<and> list_all finite_number r) (matrix ?M)"
    by (simp only: list_all_iff)
  from e have e': "list_all (\<lambda>r. Num (Finite True 0 0) \<notin> set r) (matrix ?M)"
    by (simp only: list_all_iff)
  from a b c d' e' r1 r2 show ?thesis by (simp only: simp_thms)
qed

text \<open>
  The claim as stated fails for a matrix without columns: \<^verbatim>\<open>new Matrix([[]])\<close> has
  \<open>m = 0\<close>, and \<^verbatim>\<open>identity(0)\<close> throws. It fails for a matrix with an element that is
  not finite: \<^verbatim>\<open>[[Infinity, 1]]\<close> times \<^verbatim>\<open>identity(2)\<close> is \<^verbatim>\<open>[[Infinity, NaN]]\<close>,
  since \<^verbatim>\<open>Infinity * 0\<close> is \<^verbatim>\<open>NaN\<close>. It fails for a matrix with empty slots:
  \<^verbatim>\<open>new Matrix(new Matrix([[2]]))\<close> has one row of two empty slots, and its product
  with \<^verbatim>\<open>identity(2)\<close> is \<^verbatim>\<open>[[NaN, NaN]]\<close>. And an element \<open>-0\<close> comes back as
  \<open>+0\<close>: \<^verbatim>\<open>[[-0]]\<close> times \<^verbatim>\<open>identity(1)\<close> is \<^verbatim>\<open>[[0]]\<close>.
\<close>

theorem Matrix_identity_counterexample:
  "Matrix_constructor (MArray [[]]) None None = Inr (Matrix [[]])
   \<and> Matrix_m (Matrix [[]]) = Inr 0
   \<and> Matrix_identity (d_of_nat 0) = Inl TypeError
   \<and> Matrix_constructor (MArray [[Num (Infinity False), Num (d_of_nat 1)]]) None None
       = Inr (Matrix [[Num (Infinity False), Num (d_of_nat 1)]])
   \<and> Matrix_m (Matrix [[Num (Infinity False), Num (d_of_nat 1)]]) = Inr 2
   \<and> Matrix_identity (d_of_nat 2) = Inr (Matrix [[Num d_one, Num d_zero], [Num d_zero, Num d_one]])
   \<and> Matrix_matrixMultiplication (Matrix [[Num (Infinity False), Num (d_of_nat 1)]])
        (Matrix [[Num d_one, Num d_zero], [Num d_zero, Num d_one]])
       = Inr (Matrix [[Num (Infinity False), Num NaN]])
   \<and> Matrix_constructor (MArray [[Num (d_of_nat 2)]]) None None = Inr (Matrix [[Num (d_of_nat 2)]])
   \<and> Matrix_constructor (MMatrix (Matrix [[Num (d_of_nat 2)]])) None None
       = Inr (Matrix [[Hole, Hole]])
   \<and> Matrix_m (Matrix [[Hole, Hole]]) = Inr 2
   \<and> Matrix_matrixMultiplication (Matrix [[Hole, Hole]])
        (Matrix [[Num d_one, Num d_zero], [Num d_zero, Num d_one]])
       = Inr (Matrix [[Num NaN, Num NaN]])
   \<and> Matrix_identity (d_of_nat 1) = Inr (Matrix [[Num d_one]])
   \<and> Matrix_matrixMultiplication (Matrix [[Num (Finite True 0 0)]]) (Matrix [[Num d_one]])
       = Inr (Matrix [[Num (Finite False 0 0)]])"
  by code_simp

section \<open>Transposition\<close>

text \<open>
  The state of the new array while \<^verbatim>\<open>transpose\<close> copies row \<open>i\<close>: the cells of the
  rows before \<open>i\<close> are in place, and of row \<open>i\<close> those of the columns before \<open>j\<close>; an
  empty slot of the matrix is skipped and leaves the slot of the new array empty.
\<close>

lemma transpose_cell_update:
  assumes "i < n" "j < m"
  shows "(map (\<lambda>j'. map (\<lambda>i'. if i' = i \<and> j' < j then r ! j' else f i' j') [0..<n]) [0..<m])
           [j := (map (\<lambda>j'. map (\<lambda>i'. if i' = i \<and> j' < j then r ! j' else f i' j') [0..<n]) [0..<m] ! j)
                   [i := r ! j]]
         = map (\<lambda>j'. map (\<lambda>i'. if i' = i \<and> j' < Suc j then r ! j' else f i' j') [0..<n]) [0..<m]"
  using assms by (auto simp add: list_eq_iff_nth_eq nth_list_update)

lemma forEach_row_state:
  assumes i: "i < n" and r: "length r = m" and f: "\<forall>j'. f i j' = Hole"
  shows "j \<le> m \<Longrightarrow>
    forEach_row (drop j r) j i
       (map (\<lambda>j'. map (\<lambda>i'. if i' = i \<and> j' < j then r ! j' else f i' j') [0..<n]) [0..<m])
     = Inr (map (\<lambda>j'. map (\<lambda>i'. if i' = i then r ! j' else f i' j') [0..<n]) [0..<m])"
proof (induction "m - j" arbitrary: j)
  case 0
  with r show ?case by simp
next
  case (Suc d)
  then have j: "j < m" by simp
  with r have d: "drop j r = r ! j # drop (Suc j) r"
    by (simp add: Cons_nth_drop_Suc)
  have IH: "forEach_row (drop (Suc j) r) (Suc j) i
       (map (\<lambda>j'. map (\<lambda>i'. if i' = i \<and> j' < Suc j then r ! j' else f i' j') [0..<n]) [0..<m])
     = Inr (map (\<lambda>j'. map (\<lambda>i'. if i' = i then r ! j' else f i' j') [0..<n]) [0..<m])"
    using Suc.hyps(2) j by (intro Suc.hyps(1)) simp_all
  show ?case
  proof (cases "r ! j = Hole")
    case True
    from f True have eq: "map (\<lambda>j'. map (\<lambda>i'. if i' = i \<and> j' < j then r ! j' else f i' j') [0..<n]) [0..<m]
        = map (\<lambda>j'. map (\<lambda>i'. if i' = i \<and> j' < Suc j then r ! j' else f i' j') [0..<n]) [0..<m]"
      by (auto simp add: less_Suc_eq)
    show ?thesis
      by (simp only: d forEach_row.simps True if_True eq IH simp_thms)
  next
    case False
    let ?st = "map (\<lambda>j'. map (\<lambda>i'. if i' = i \<and> j' < j then r ! j' else f i' j') [0..<n]) [0..<m]"
    from j have len1: "j < length ?st" by simp
    from i j have len2: "i < length (?st ! j)" by simp
    have "arr2_set ?st (int j) (int i) (r ! j) = Inr (?st[j := (?st ! j)[i := r ! j]])"
      using len1 len2 by (rule arr2_set_nat)
    then have set: "arr2_set ?st (int j) (int i) (r ! j)
        = Inr (map (\<lambda>j'. map (\<lambda>i'. if i' = i \<and> j' < Suc j then r ! j' else f i' j') [0..<n])
                 [0..<m])"
      by (simp only: transpose_cell_update [OF i j])
    show ?thesis
      by (simp only: d forEach_row.simps False if_False set sum.case IH)
  qed
qed


lemma forEach_rows_state:
  assumes rect: "\<forall>r\<in>set rows. length r = m"
  shows "i \<le> length rows \<Longrightarrow>
    forEach_rows (drop i rows) i
       (map (\<lambda>j'. map (\<lambda>i'. if i' < i then rows ! i' ! j' else Hole) [0..<length rows]) [0..<m])
     = Inr (map (\<lambda>j'. map (\<lambda>i'. rows ! i' ! j') [0..<length rows]) [0..<m])"
proof (induction "length rows - i" arbitrary: i)
  case 0
  then show ?case by simp
next
  case (Suc d)
  then have i: "i < length rows" by simp
  then have d: "drop i rows = rows ! i # drop (Suc i) rows"
    by (simp add: Cons_nth_drop_Suc)
  from i rect have r: "length (rows ! i) = m" by simp
  have row: "forEach_row (rows ! i) 0 i
       (map (\<lambda>j'. map (\<lambda>i'. if i' < i then rows ! i' ! j' else Hole) [0..<length rows]) [0..<m])
     = Inr (map (\<lambda>j'. map (\<lambda>i'. if i' < Suc i then rows ! i' ! j' else Hole) [0..<length rows])
              [0..<m])"
    using forEach_row_state [OF i r, of "\<lambda>i' j'. if i' < i then rows ! i' ! j' else Hole" 0]
    by (simp add: less_Suc_eq cong: if_cong)
  have IH: "forEach_rows (drop (Suc i) rows) (Suc i)
       (map (\<lambda>j'. map (\<lambda>i'. if i' < Suc i then rows ! i' ! j' else Hole) [0..<length rows])
          [0..<m])
     = Inr (map (\<lambda>j'. map (\<lambda>i'. rows ! i' ! j') [0..<length rows]) [0..<m])"
    using Suc.hyps(2) i by (intro Suc.hyps(1)) simp_all
  show ?case
    by (simp only: d forEach_rows.simps row IH sum.case)
qed

lemma transpose_rect:
  assumes m: "Matrix_m M = Inr m" and pos: "0 < m" and rect: "\<forall>r\<in>set (matrix M). length r = m"
  shows "Matrix_transpose M
    = Inr (Matrix (map (\<lambda>j. map (\<lambda>i. matrix M ! i ! j) [0..<Matrix_n M]) [0..<m]))"
proof -
  have init: "replicate m (replicate (length (matrix M)) Hole)
      = map (\<lambda>j'. map (\<lambda>i'. if i' < 0 then matrix M ! i' ! j' else Hole) [0..<length (matrix M)])
          [0..<m]"
    by (simp add: map_replicate_const)
  have loop: "forEach_rows (matrix M) 0 (replicate m (replicate (length (matrix M)) Hole))
      = Inr (map (\<lambda>j'. map (\<lambda>i'. matrix M ! i' ! j') [0..<length (matrix M)]) [0..<m])"
    unfolding init using forEach_rows_state [OF rect, of 0] by simp
  have ctor: "Matrix_constructor
       (MArray (map (\<lambda>j'. map (\<lambda>i'. matrix M ! i' ! j') [0..<length (matrix M)]) [0..<m]))
       None None
     = Inr (Matrix (map (\<lambda>j'. map (\<lambda>i'. matrix M ! i' ! j') [0..<length (matrix M)]) [0..<m]))"
    using pos by (intro Matrix_constructor_MArray [where p = "length (matrix M)"]) auto
  show ?thesis
    by (simp add: Matrix_transpose_def m Matrix_n_def loop ctor del: Matrix_constructor.simps)
qed


lemma Matrix_m_Inr_rows: "Matrix_m M = Inr m \<Longrightarrow> matrix M \<noteq> []"
  by (cases "matrix M") (simp_all add: Matrix_m_def)

lemma rect_rows_rebuild:
  assumes "\<forall>r\<in>set rows. length r = m"
  shows "map (\<lambda>i. map (\<lambda>j. rows ! i ! j) [0..<m]) [0..<length rows] = rows"
proof (rule nth_equalityI)
  show "length (map (\<lambda>i. map (\<lambda>j. rows ! i ! j) [0..<m]) [0..<length rows]) = length rows"
    by simp
next
  fix i assume "i < length (map (\<lambda>i. map (\<lambda>j. rows ! i ! j) [0..<m]) [0..<length rows])"
  then have i: "i < length rows" by simp
  with assms have "length (rows ! i) = m" by simp
  then have "map (\<lambda>j. rows ! i ! j) [0..<m] = rows ! i"
    by (simp add: list_eq_iff_nth_eq)
  with i show "map (\<lambda>i. map (\<lambda>j. rows ! i ! j) [0..<m]) [0..<length rows] ! i = rows ! i"
    by simp
qed


text \<open>
  Claim C6, as the code has it: for every matrix \<open>M\<close> of \<open>n\<close> rows and \<open>m\<close> columns,
  with at least one row and one column, \<^verbatim>\<open>M.transpose()\<close> succeeds and returns the
  matrix of \<open>m\<close> rows and \<open>n\<close> columns with \<open>result[j][i] = M[i][j]\<close>, and transposing
  the result gives \<open>M\<close> back.
\<close>

theorem Matrix_transpose_correct:
  assumes m: "Matrix_m M = Inr m" and pos: "0 < m"
    and rect: "\<forall>r\<in>set (matrix M). length r = m"
  shows "Matrix_transpose M
      = Inr (Matrix (map (\<lambda>j. map (\<lambda>i. matrix M ! i ! j) [0..<Matrix_n M]) [0..<m]))
    \<and> Matrix_n (Matrix (map (\<lambda>j. map (\<lambda>i. matrix M ! i ! j) [0..<Matrix_n M]) [0..<m])) = m
    \<and> Matrix_m (Matrix (map (\<lambda>j. map (\<lambda>i. matrix M ! i ! j) [0..<Matrix_n M]) [0..<m]))
        = Inr (Matrix_n M)
    \<and> Matrix_transpose (Matrix (map (\<lambda>j. map (\<lambda>i. matrix M ! i ! j) [0..<Matrix_n M]) [0..<m]))
        = Inr M"
proof -
  let ?n = "Matrix_n M"
  let ?T = "Matrix (map (\<lambda>j. map (\<lambda>i. matrix M ! i ! j) [0..<?n]) [0..<m])"
  from Matrix_m_Inr_rows [OF m] have n: "0 < ?n"
    by (simp add: Matrix_n_def)
  have Tn: "Matrix_n ?T = m"
    by (simp add: Matrix_n_def)
  from pos have Tm: "Matrix_m ?T = Inr ?n"
    by (simp add: Matrix_m_def upt_conv_Cons)
  have Trect: "\<forall>r\<in>set (matrix ?T). length r = ?n"
    by auto
  have cells: "map (\<lambda>j. map (\<lambda>i. matrix ?T ! i ! j) [0..<Matrix_n ?T]) [0..<?n]
      = map (\<lambda>j. map (\<lambda>i. matrix M ! j ! i) [0..<m]) [0..<length (matrix M)]"
    by (simp add: Tn Matrix_n_def)
  from transpose_rect [OF Tm n Trect]
  have "Matrix_transpose ?T = Inr (Matrix (matrix M))"
    by (simp only: cells rect_rows_rebuild [OF rect])
  then have again: "Matrix_transpose ?T = Inr M"
    by simp
  from transpose_rect [OF m pos rect] Tn Tm again show ?thesis
    by (simp only: simp_thms)
qed


theorem Matrix_transpose_correct_witness:
  "Matrix_m (Matrix [[Num (d_of_nat 1), Num (d_of_nat 2), Num (d_of_nat 3)], [Num (d_of_nat 4), Num (d_of_nat 5), Num (d_of_nat 6)]]) = Inr 3
   \<and> (0::nat) < 3
   \<and> Matrix_transpose (Matrix [[Num (d_of_nat 1), Num (d_of_nat 2), Num (d_of_nat 3)], [Num (d_of_nat 4), Num (d_of_nat 5), Num (d_of_nat 6)]])
       = Inr (Matrix [[Num (d_of_nat 1), Num (d_of_nat 4)], [Num (d_of_nat 2), Num (d_of_nat 5)], [Num (d_of_nat 3), Num (d_of_nat 6)]])
   \<and> Matrix_transpose (Matrix [[Num (d_of_nat 1), Num (d_of_nat 4)], [Num (d_of_nat 2), Num (d_of_nat 5)], [Num (d_of_nat 3), Num (d_of_nat 6)]])
       = Inr (Matrix [[Num (d_of_nat 1), Num (d_of_nat 2), Num (d_of_nat 3)], [Num (d_of_nat 4), Num (d_of_nat 5), Num (d_of_nat 6)]])"
proof -
  have a: "Matrix_m (Matrix [[Num (d_of_nat 1), Num (d_of_nat 2), Num (d_of_nat 3)], [Num (d_of_nat 4), Num (d_of_nat 5), Num (d_of_nat 6)]]) = Inr 3"
    by (simp add: Matrix_m_def)
  have b: "(0::nat) < 3" by simp
  have c: "\<forall>r\<in>set (matrix (Matrix [[Num (d_of_nat 1), Num (d_of_nat 2), Num (d_of_nat 3)], [Num (d_of_nat 4), Num (d_of_nat 5), Num (d_of_nat 6)]])). length r = 3"
    by simp
  have u: "[0..<3] = [0, 1, 2]" "[0..<2] = [0, 1]"
    by (simp_all add: upt_rec)
  have t: "map (\<lambda>j. map (\<lambda>i. matrix (Matrix [[Num (d_of_nat 1), Num (d_of_nat 2), Num (d_of_nat 3)], [Num (d_of_nat 4), Num (d_of_nat 5), Num (d_of_nat 6)]]) ! i ! j)
                  [0..<Matrix_n (Matrix [[Num (d_of_nat 1), Num (d_of_nat 2), Num (d_of_nat 3)], [Num (d_of_nat 4), Num (d_of_nat 5), Num (d_of_nat 6)]])]) [0..<3]
      = [[Num (d_of_nat 1), Num (d_of_nat 4)], [Num (d_of_nat 2), Num (d_of_nat 5)], [Num (d_of_nat 3), Num (d_of_nat 6)]]"
    by (simp add: Matrix_n_def u)
  from Matrix_transpose_correct [OF a b c] a b show ?thesis
    by (simp only: t simp_thms)
qed


text \<open>
  The claim as stated fails for a matrix without columns: for \<^verbatim>\<open>new Matrix([[]])\<close>, of
  one row and no column, the new array has no row, and the constructor called on it
  throws when \<^verbatim>\<open>assertValidity\<close> reads the length of its first row.
\<close>

theorem Matrix_transpose_zero_columns_counterexample:
  "Matrix_constructor (MArray [[]]) None None = Inr (Matrix [[]])
   \<and> Matrix_n (Matrix [[]]) = 1 \<and> Matrix_m (Matrix [[]]) = Inr 0
   \<and> Matrix_transpose (Matrix [[]]) = Inl TypeError"
  by code_simp

end
